theory Spec2Isabelle
  imports Main
begin

section \<open>Tokens, token ranges and violations\<close>

text \<open>
  A token of the classified stream is an instance of a Python class of \<^verbatim>\<open>vsg.parser\<close> or
  \<^verbatim>\<open>vsg.token\<close>. The model keeps the name of that class followed by the names of the
  classes it derives from, and the text of the token. \<^verbatim>\<open>isinstance(oToken, cls)\<close> is
  membership of \<^verbatim>\<open>cls\<close> in that list.
\<close>

record token =
  classes :: "string list"
  token_value :: string

definition isinstance :: "token \<Rightarrow> string \<Rightarrow> bool" where
  "isinstance oToken cls \<longleftrightarrow> cls \<in> set (classes oToken)"

text \<open>
  Modelled from the spec: the module \<^verbatim>\<open>vsg.parser\<close> is missing. \<^verbatim>\<open>parser.blank_line()\<close> is
  the synthesized blank-line token and \<^verbatim>\<open>parser.carriage_return()\<close> its line terminator.
\<close>

definition blank_line :: token where
  "blank_line = \<lparr>classes = [''parser.blank_line''], token_value = []\<rparr>"

definition carriage_return :: token where
  "carriage_return = \<lparr>classes = [''parser.carriage_return''], token_value = [CHR 0x0A]\<rparr>"

text \<open>
  Modelled from the spec: \<^verbatim>\<open>parser.whitespace\<close> and \<^verbatim>\<open>parser.comment\<close> are missing; the
  lexer emits them between the untyped tokens.
\<close>

definition whitespace :: "string \<Rightarrow> token" where
  "whitespace sString = \<lparr>classes = [''parser.whitespace''], token_value = sString\<rparr>"

definition comment :: "string \<Rightarrow> token" where
  "comment sString = \<lparr>classes = [''parser.comment''], token_value = sString\<rparr>"

text \<open>
  Modelled from the spec: the class \<^verbatim>\<open>Tokens\<close> of \<^verbatim>\<open>vsg.vhdlFile.vhdlFile\<close> (the token range
  of interest) is missing; the tests build it as \<^verbatim>\<open>Tokens(iStartIndex, iLine, lTokens)\<close>.
  \<^verbatim>\<open>iEndIndex\<close> is the end of the range in the stream at detection time, which
  stays put when a repair replaces the tokens of the range.
\<close>

record Tokens =
  iStartIndex :: nat
  iEndIndex :: nat
  iLine :: int
  lTokens :: "token list"

definition mk_Tokens :: "nat \<Rightarrow> int \<Rightarrow> token list \<Rightarrow> Tokens" where
  "mk_Tokens iStart iLn lTok =
     \<lparr>iStartIndex = iStart, iEndIndex = iStart + length lTok, iLine = iLn, lTokens = lTok\<rparr>"

text \<open>
  Modelled from the spec: the module \<^verbatim>\<open>vsg.violation\<close> is missing. A violation holds its
  reporting line number, the token range, a solution text and the repair action, a
  dictionary that is empty until \<^verbatim>\<open>set_action\<close> stores one.
\<close>

record violation =
  iLineNumber :: int
  oToi :: Tokens
  sSolution :: string
  dAction :: "(string \<times> string) list"

definition New :: "int \<Rightarrow> Tokens \<Rightarrow> string \<Rightarrow> violation" where
  "New iLn oTokens sSol = \<lparr>iLineNumber = iLn, oToi = oTokens, sSolution = sSol, dAction = []\<rparr>"

definition set_action :: "violation \<Rightarrow> (string \<times> string) list \<Rightarrow> violation" where
  "set_action oViolation d = oViolation\<lparr>dAction := d\<rparr>"

definition get_tokens :: "violation \<Rightarrow> token list" where
  "get_tokens oViolation = lTokens (oToi oViolation)"

definition set_tokens :: "violation \<Rightarrow> token list \<Rightarrow> violation" where
  "set_tokens oViolation lTok = oViolation\<lparr>oToi := (oToi oViolation)\<lparr>lTokens := lTok\<rparr>\<rparr>"

datatype py_error = KeyError string | TypeError

section \<open>The rule \<^verbatim>\<open>blank_line_below_line_ending_with_token\<close>\<close>

text \<open>
  The attributes that the constructor of the rule sets, and the list of violations of
  the base class \<^verbatim>\<open>rule.Rule\<close>. \<^verbatim>\<open>lHierarchyLimits\<close> is \<^verbatim>\<open>None\<close> unless a concrete rule
  sets a pair of start and end token classes.
\<close>

record blank_line_rule =
  rule_name :: string
  rule_identifier :: string
  solution :: string
  phase :: int
  lTokens_of :: "string list"
  lHierarchyLimits :: "(string \<times> string) list option"
  lAllowTokens :: "string list"
  style :: string
  configuration :: "string list"
  violations :: "violation list"

text \<open>
  Modelled from the spec: \<^verbatim>\<open>rule.Rule\<close> is missing. Its constructor leaves the universal
  configuration keys and no violation; \<^verbatim>\<open>add_violation\<close> appends (the test
  \<^verbatim>\<open>test_add_violations_method\<close> counts one more violation after each call).
\<close>

definition add_violation :: "blank_line_rule \<Rightarrow> violation \<Rightarrow> blank_line_rule" where
  "add_violation self oViolation = self\<lparr>violations := violations self @ [oViolation]\<rparr>"

definition init_rule :: "string \<Rightarrow> string \<Rightarrow> string list \<Rightarrow> string list \<Rightarrow> blank_line_rule" where
  "init_rule nm ident lTok lAllow =
     \<lparr>rule_name = nm, rule_identifier = ident, solution = ''Insert blank line below'', phase = 3,
      lTokens_of = lTok, lHierarchyLimits = None, lAllowTokens = lAllow,
      style = ''require_blank_line'',
      configuration = [''indentSize'', ''phase'', ''disable'', ''fixable'', ''severity'', ''style''],
      violations = []\<rparr>"

text \<open>
  \<^verbatim>\<open>_is_allowed_token\<close>: the outer loop runs over the allow-list, the inner one over the
  tokens of the range; the first instance found ends both.
\<close>

fun any_instance :: "token list \<Rightarrow> string \<Rightarrow> bool" where
  "any_instance [] oAllowToken = False"
| "any_instance (oToken # lTok) oAllowToken =
     (if isinstance oToken oAllowToken then True else any_instance lTok oAllowToken)"

fun is_allowed_token :: "string list \<Rightarrow> token list \<Rightarrow> bool" where
  "is_allowed_token [] lTok = False"
| "is_allowed_token (oAllowToken # lAllow) lTok =
     (if any_instance lTok oAllowToken then True else is_allowed_token lAllow lTok)"

text \<open>\<^verbatim>\<open>_analyze_require_blank_line\<close>: the loop over the token ranges of interest.\<close>

fun analyze_require_blank_line ::
  "blank_line_rule \<Rightarrow> Tokens list \<Rightarrow> string list \<Rightarrow> blank_line_rule" where
  "analyze_require_blank_line self [] lAllow = self"
| "analyze_require_blank_line self (oT # lToi) lAllow =
     (if is_allowed_token lAllow (lTokens oT)
      then analyze_require_blank_line self lToi lAllow
      else if length (lTokens oT) = 1 \<and> isinstance (lTokens oT ! 0) ''parser.blank_line''
      then analyze_require_blank_line self lToi lAllow
      else analyze_require_blank_line
             (add_violation self
                (set_action (New (iLine oT - 1) oT (solution self)) [(''action'', ''Insert'')]))
             lToi lAllow)"

text \<open>\<^verbatim>\<open>_analyze_no_blank_line\<close>: its parameter \<^verbatim>\<open>lAllowTokens\<close> is not read.\<close>

fun analyze_no_blank_line ::
  "blank_line_rule \<Rightarrow> Tokens list \<Rightarrow> string list \<Rightarrow> blank_line_rule" where
  "analyze_no_blank_line self [] lAllow = self"
| "analyze_no_blank_line self (oT # lToi) lAllow =
     analyze_no_blank_line
       (add_violation self
          (set_action (New (iLine oT + 1) oT (solution self)) [(''action'', ''Remove'')]))
       lToi lAllow"

text \<open>The method \<^verbatim>\<open>_analyze\<close>: any other style falls through both branches.\<close>

definition rule_analyze :: "blank_line_rule \<Rightarrow> Tokens list \<Rightarrow> blank_line_rule" where
  "rule_analyze self lToi =
     (if style self = ''require_blank_line''
      then analyze_require_blank_line self lToi (lAllowTokens self)
      else if style self = ''no_blank_line''
      then analyze_no_blank_line self lToi (lAllowTokens self)
      else self)"

text \<open>
  The method \<^verbatim>\<open>_fix_violation\<close>. \<^verbatim>\<open>dAction['action']\<close> raises \<^verbatim>\<open>KeyError\<close> on a dictionary
  without that key; an action that is neither \<^verbatim>\<open>Insert\<close> nor \<^verbatim>\<open>Remove\<close> changes nothing.
\<close>

definition fix_violation :: "violation \<Rightarrow> py_error + violation" where
  "fix_violation oViolation =
     (case map_of (dAction oViolation) ''action'' of
        None \<Rightarrow> Inl (KeyError ''action'')
      | Some a \<Rightarrow>
          if a = ''Insert''
          then Inr (set_tokens oViolation (blank_line # carriage_return # get_tokens oViolation))
          else if a = ''Remove''
          then Inr (set_tokens oViolation [])
          else Inr oViolation)"

text \<open>The violations that the two analyses record for a token range.\<close>

definition insert_violation :: "blank_line_rule \<Rightarrow> Tokens \<Rightarrow> violation" where
  "insert_violation self oT =
     \<lparr>iLineNumber = iLine oT - 1, oToi = oT, sSolution = solution self,
      dAction = [(''action'', ''Insert'')]\<rparr>"

definition remove_violation :: "blank_line_rule \<Rightarrow> Tokens \<Rightarrow> violation" where
  "remove_violation self oT =
     \<lparr>iLineNumber = iLine oT + 1, oToi = oT, sSolution = solution self,
      dAction = [(''action'', ''Remove'')]\<rparr>"

definition single_blank_line :: "token list \<Rightarrow> bool" where
  "single_blank_line lTok \<longleftrightarrow> length lTok = 1 \<and> isinstance (lTok ! 0) ''parser.blank_line''"


section \<open>The stream, the query and the fix of a rule\<close>

text \<open>
  Modelled from the spec: the class \<^verbatim>\<open>vhdlFile\<close> is missing. The stream is the list of all
  tokens of the file; a carriage-return token ends a line. The query
  \<^verbatim>\<open>get_line_below_line_ending_with_token\<close> gives, for every line whose last token is an
  instance of one of the given classes and that has a line below it, the tokens of the
  line below as a range that starts at the index of its first token and carries its
  line number (lines count from 1).
\<close>

definition is_carriage_return :: "token \<Rightarrow> bool" where
  "is_carriage_return oToken \<longleftrightarrow> isinstance oToken ''parser.carriage_return''"

fun split_lines :: "token list \<Rightarrow> token list list" where
  "split_lines [] = []"
| "split_lines (oToken # lObjects) =
     (if is_carriage_return oToken then [] # split_lines lObjects
      else (case split_lines lObjects of
              [] \<Rightarrow> [[oToken]]
            | lLine # lLines \<Rightarrow> (oToken # lLine) # lLines))"

definition ends_with_token :: "string list \<Rightarrow> token list \<Rightarrow> bool" where
  "ends_with_token lTok lLine \<longleftrightarrow> lLine \<noteq> [] \<and> list_ex (isinstance (last lLine)) lTok"

fun lines_below :: "string list \<Rightarrow> nat \<Rightarrow> int \<Rightarrow> token list list \<Rightarrow> Tokens list" where
  "lines_below lTok iIndex iLn (lLine # lBelow # lLines) =
     (if ends_with_token lTok lLine
      then [mk_Tokens (iIndex + length lLine + 1) (iLn + 1) lBelow] else []) @
     lines_below lTok (iIndex + length lLine + 1) (iLn + 1) (lBelow # lLines)"
| "lines_below lTok iIndex iLn lLines = []"

definition get_line_below_line_ending_with_token :: "token list \<Rightarrow> string list \<Rightarrow> Tokens list" where
  "get_line_below_line_ending_with_token lAllObjects lTok =
     lines_below lTok 0 1 (split_lines lAllObjects)"

text \<open>
  The two other queries of \<^verbatim>\<open>vhdlFile\<close> that the rule calls are not modelled; they are
  taken as they come.
\<close>

record file_queries =
  get_line_below_line_ending_with_token_with_hierarchy ::
    "token list \<Rightarrow> string list \<Rightarrow> (string \<times> string) list \<Rightarrow> Tokens list"
  get_blank_lines_below_line_ending_with_token ::
    "token list \<Rightarrow> string list \<Rightarrow> (string \<times> string) list option \<Rightarrow> Tokens list"

text \<open>The method \<^verbatim>\<open>_get_tokens_of_interest\<close>; it returns \<^verbatim>\<open>None\<close> for any other style.\<close>

definition get_tokens_of_interest ::
  "file_queries \<Rightarrow> blank_line_rule \<Rightarrow> token list \<Rightarrow> Tokens list option" where
  "get_tokens_of_interest oFile self lAllObjects =
     (if style self = ''require_blank_line''
      then (case lHierarchyLimits self of
              None \<Rightarrow> Some (get_line_below_line_ending_with_token lAllObjects (lTokens_of self))
            | Some lLimits \<Rightarrow>
                Some (get_line_below_line_ending_with_token_with_hierarchy oFile lAllObjects
                        (lTokens_of self) lLimits))
      else if style self = ''no_blank_line''
      then Some (get_blank_lines_below_line_ending_with_token oFile lAllObjects
                   (lTokens_of self) (lHierarchyLimits self))
      else None)"

text \<open>
  Modelled from the spec: \<^verbatim>\<open>rule.Rule.analyze\<close> and \<^verbatim>\<open>rule.Rule.fix\<close> are missing.
  \<^verbatim>\<open>analyze\<close> resets the violations, runs the query and hands its result to \<^verbatim>\<open>_analyze\<close>,
  which reads no range when the style is none of the two. \<^verbatim>\<open>fix\<close> analyzes, repairs each
  violation with \<^verbatim>\<open>_fix_violation\<close> and writes the repaired ranges back in one pass, in
  ascending position: \<^verbatim>\<open>update\<close> copies the stream up to the start of a range, puts the
  tokens of the violation in place of the range and goes on behind it.
\<close>

definition analyze :: "file_queries \<Rightarrow> blank_line_rule \<Rightarrow> token list \<Rightarrow> blank_line_rule" where
  "analyze oFile self lAllObjects =
     (case get_tokens_of_interest oFile self lAllObjects of
        None \<Rightarrow> self\<lparr>violations := []\<rparr>
      | Some lToi \<Rightarrow> rule_analyze (self\<lparr>violations := []\<rparr>) lToi)"

fun fix_violations :: "violation list \<Rightarrow> py_error + violation list" where
  "fix_violations [] = Inr []"
| "fix_violations (oViolation # lViolations) =
     (case fix_violation oViolation of
        Inl e \<Rightarrow> Inl e
      | Inr oFixed \<Rightarrow>
          (case fix_violations lViolations of
             Inl e \<Rightarrow> Inl e
           | Inr lFixed \<Rightarrow> Inr (oFixed # lFixed)))"

fun update :: "nat \<Rightarrow> token list \<Rightarrow> violation list \<Rightarrow> token list" where
  "update iIndex lObjects [] = lObjects"
| "update iIndex lObjects (oViolation # lViolations) =
     take (iStartIndex (oToi oViolation) - iIndex) lObjects @
     lTokens (oToi oViolation) @
     update (iEndIndex (oToi oViolation))
       (drop (iEndIndex (oToi oViolation) - iIndex) lObjects) lViolations"

definition rule_fix ::
  "file_queries \<Rightarrow> blank_line_rule \<Rightarrow> token list \<Rightarrow> py_error + blank_line_rule \<times> token list" where
  "rule_fix oFile self lAllObjects =
     (case fix_violations (violations (analyze oFile self lAllObjects)) of
        Inl e \<Rightarrow> Inl e
      | Inr lFixed \<Rightarrow>
          Inr ((analyze oFile self lAllObjects)\<lparr>violations := lFixed\<rparr>,
               update 0 lAllObjects lFixed))"

text \<open>A line holds no carriage return.\<close>

definition no_cr :: "token list \<Rightarrow> bool" where
  "no_cr l \<longleftrightarrow> list_all (\<lambda>t. \<not> is_carriage_return t) l"

text \<open>
  Every stream is a list of lines with their carriage returns and a last line without
  one. The fix of the rule, described line by line: a blank line goes under every line
  that ends with a configured token and has a line below that is neither a single blank
  line nor allowed.
\<close>

type_synonym terminated_line = "token list \<times> token"

definition join_lines :: "terminated_line list \<Rightarrow> token list \<Rightarrow> token list" where
  "join_lines lLines lLast = concat (map (\<lambda>(lLine, oCr). lLine @ [oCr]) lLines) @ lLast"

definition lines_of :: "terminated_line list \<Rightarrow> token list \<Rightarrow> token list list" where
  "lines_of lLines lLast = map fst lLines @ (if lLast = [] then [] else [lLast])"

definition well_terminated :: "terminated_line list \<Rightarrow> token list \<Rightarrow> bool" where
  "well_terminated lLines lLast \<longleftrightarrow>
     list_all (\<lambda>(lLine, oCr). no_cr lLine \<and> is_carriage_return oCr) lLines \<and> no_cr lLast"

definition needs_blank_line :: "blank_line_rule \<Rightarrow> token list \<Rightarrow> token list list \<Rightarrow> bool" where
  "needs_blank_line self lLine lBelow =
     (case lBelow of
        [] \<Rightarrow> False
      | lNext # lRest \<Rightarrow>
          ends_with_token (lTokens_of self) lLine \<and>
          \<not> (single_blank_line lNext \<or> is_allowed_token (lAllowTokens self) lNext))"

fun blank_lines_inserted ::
  "blank_line_rule \<Rightarrow> terminated_line list \<Rightarrow> token list \<Rightarrow> token list" where
  "blank_lines_inserted self [] lLast = lLast"
| "blank_lines_inserted self ((lLine, oCr) # lLines) lLast =
     lLine @ oCr #
     (if needs_blank_line self lLine (lines_of lLines lLast)
      then [blank_line, carriage_return] else []) @
     blank_lines_inserted self lLines lLast"

fun lines_with_blank_lines :: "blank_line_rule \<Rightarrow> token list list \<Rightarrow> token list list" where
  "lines_with_blank_lines self [] = []"
| "lines_with_blank_lines self (lLine # lBelow) =
     lLine # (if needs_blank_line self lLine lBelow then [[blank_line]] else []) @
     lines_with_blank_lines self lBelow"

text \<open>The violation of a range after \<^verbatim>\<open>_fix_violation\<close>, and the ranges that get one.\<close>

definition insert_fixed :: "blank_line_rule \<Rightarrow> Tokens \<Rightarrow> violation" where
  "insert_fixed self oT =
     set_tokens (insert_violation self oT) (blank_line # carriage_return # lTokens oT)"

definition violating :: "blank_line_rule \<Rightarrow> Tokens \<Rightarrow> bool" where
  "violating self oT \<longleftrightarrow>
     \<not> (single_blank_line (lTokens oT) \<or> is_allowed_token (lAllowTokens self) (lTokens oT))"

section \<open>The classifier of \<^verbatim>\<open>interface_unknown_declaration\<close>\<close>

subsection \<open>Helpers of \<^verbatim>\<open>vsg.vhdlFile.utils\<close>\<close>

text \<open>
  Modelled from the spec: the module \<^verbatim>\<open>vsg.vhdlFile.utils\<close> is missing. The lexer hands
  over untyped tokens (class \<^verbatim>\<open>parser.item\<close>) between whitespace, comment and
  line-terminator tokens, which carry their class already. Assigning a kind replaces
  the token by one of the new class with the same text; a classified token is never
  classified again, so the next token of a cursor is the first untyped token at or after
  it. Keywords and symbols are compared without regard to case.
\<close>

definition item :: "string \<Rightarrow> token" where
  "item sString = \<lparr>classes = [''parser.item''], token_value = sString\<rparr>"

definition is_item :: "token \<Rightarrow> bool" where
  "is_item oToken \<longleftrightarrow> classes oToken = [''parser.item'']"

definition lower_char :: "char \<Rightarrow> char" where
  "lower_char c =
     (case map_of (zip ''ABCDEFGHIJKLMNOPQRSTUVWXYZ'' ''abcdefghijklmnopqrstuvwxyz'') c of
        None \<Rightarrow> c
      | Some d \<Rightarrow> d)"

definition lower :: "string \<Rightarrow> string" where
  "lower sString = map lower_char sString"

definition assign :: "string \<Rightarrow> token \<Rightarrow> token" where
  "assign cls oToken = \<lparr>classes = [cls], token_value = token_value oToken\<rparr>"

fun find_item :: "token list \<Rightarrow> nat option" where
  "find_item [] = None"
| "find_item (oToken # lObjects) =
     (if is_item oToken then Some 0 else map_option Suc (find_item lObjects))"

definition find_next_token :: "nat \<Rightarrow> token list \<Rightarrow> nat option" where
  "find_next_token iToken lObjects =
     map_option (\<lambda>k. iToken + k) (find_item (drop iToken lObjects))"

definition is_next_token :: "string \<Rightarrow> nat \<Rightarrow> token list \<Rightarrow> bool" where
  "is_next_token sToken iToken lObjects =
     (case find_next_token iToken lObjects of
        None \<Rightarrow> False
      | Some iCurrent \<Rightarrow> lower (token_value (lObjects ! iCurrent)) = sToken)"

definition is_next_token_one_of :: "string list \<Rightarrow> nat \<Rightarrow> token list \<Rightarrow> bool" where
  "is_next_token_one_of lTok iToken lObjects =
     (case find_next_token iToken lObjects of
        None \<Rightarrow> False
      | Some iCurrent \<Rightarrow> lower (token_value (lObjects ! iCurrent)) \<in> set lTok)"

text \<open>
  The structured error of a failed classification: the expected token, the token found
  (none at the end of the stream) and the position reached.
\<close>

datatype classification_error = ClassificationError string "token option" nat

definition assign_next_token_required ::
  "string \<Rightarrow> string \<Rightarrow> nat \<Rightarrow> token list \<Rightarrow> classification_error + nat \<times> token list" where
  "assign_next_token_required sToken cls iToken lObjects =
     (case find_next_token iToken lObjects of
        None \<Rightarrow> Inl (ClassificationError sToken None iToken)
      | Some iCurrent \<Rightarrow>
          if lower (token_value (lObjects ! iCurrent)) = sToken
          then Inr (iCurrent + 1, lObjects[iCurrent := assign cls (lObjects ! iCurrent)])
          else Inl (ClassificationError sToken (Some (lObjects ! iCurrent)) iCurrent))"

definition assign_next_token_if ::
  "string \<Rightarrow> string \<Rightarrow> nat \<Rightarrow> token list \<Rightarrow> nat \<times> token list" where
  "assign_next_token_if sToken cls iToken lObjects =
     (case find_next_token iToken lObjects of
        None \<Rightarrow> (iToken, lObjects)
      | Some iCurrent \<Rightarrow>
          if lower (token_value (lObjects ! iCurrent)) = sToken
          then (iCurrent + 1, lObjects[iCurrent := assign cls (lObjects ! iCurrent)])
          else (iToken, lObjects))"

subsection \<open>The sub-classifiers\<close>

text \<open>
  Modelled from the spec: the modules \<^verbatim>\<open>identifier_list\<close>, \<^verbatim>\<open>mode\<close>, \<^verbatim>\<open>subtype_indication\<close>
  and \<^verbatim>\<open>expression\<close> of \<^verbatim>\<open>vsg.vhdlFile.classify_new\<close> are missing. A region classifier
  assigns a kind to every token up to the first terminating symbol at its own nesting
  depth and stops exactly there, with the terminator unclassified; terminators inside
  parentheses do not end the region. A closing parenthesis that has no opening one in
  the region belongs to the enclosing construct and ends the region as well, and so does
  the end of the stream. \<^verbatim>\<open>scan_until\<close> works on the tokens from the cursor on and gives
  the number of tokens passed and those tokens classified.
\<close>

fun scan_until ::
  "(token \<Rightarrow> string) \<Rightarrow> string list \<Rightarrow> nat \<Rightarrow> token list \<Rightarrow> nat \<times> token list" where
  "scan_until kind lUntils d [] = (0, [])"
| "scan_until kind lUntils d (oToken # lObjects) =
     (if \<not> is_item oToken
      then (case scan_until kind lUntils d lObjects of (n, l) \<Rightarrow> (Suc n, oToken # l))
      else if d = 0 \<and> (lower (token_value oToken) \<in> set lUntils \<or> token_value oToken = '')'')
      then (0, oToken # lObjects)
      else (case scan_until kind lUntils
                   (if token_value oToken = ''('' then Suc d
                    else if token_value oToken = '')'' then d - 1 else d) lObjects of
              (n, l) \<Rightarrow> (Suc n, assign (kind oToken) oToken # l)))"

definition classify_until ::
  "(token \<Rightarrow> string) \<Rightarrow> string list \<Rightarrow> nat \<Rightarrow> token list \<Rightarrow> nat \<times> token list" where
  "classify_until kind lUntils iToken lObjects =
     (case scan_until kind lUntils 0 (drop iToken lObjects) of
        (n, l) \<Rightarrow> (iToken + n, take iToken lObjects @ l))"

definition identifier_kind :: "string \<Rightarrow> token \<Rightarrow> string" where
  "identifier_kind oType oToken =
     (if token_value oToken = '','' then ''identifier_list.comma'' else oType)"

definition identifier_list_classify_until ::
  "string list \<Rightarrow> nat \<Rightarrow> token list \<Rightarrow> string \<Rightarrow> nat \<times> token list" where
  "identifier_list_classify_until lUntils iToken lObjects oType =
     classify_until (identifier_kind oType) lUntils iToken lObjects"

definition subtype_indication_classify_until ::
  "string list \<Rightarrow> nat \<Rightarrow> token list \<Rightarrow> nat \<times> token list" where
  "subtype_indication_classify_until lUntils iToken lObjects =
     classify_until (\<lambda>oToken. ''subtype_indication.todo'') lUntils iToken lObjects"

definition expression_classify_until ::
  "string \<Rightarrow> nat \<Rightarrow> token list \<Rightarrow> nat \<times> token list" where
  "expression_classify_until sUntil iToken lObjects =
     classify_until (\<lambda>oToken. ''expression.todo'') [sUntil] iToken lObjects"

text \<open>The optional mode: one of the five mode keywords, classified only when it is next.\<close>

definition mode_keywords :: "string list" where
  "mode_keywords = [''in'', ''out'', ''inout'', ''buffer'', ''linkage'']"

definition mode_classify :: "nat \<Rightarrow> token list \<Rightarrow> nat \<times> token list" where
  "mode_classify iToken lObjects =
     (case find_next_token iToken lObjects of
        None \<Rightarrow> (iToken, lObjects)
      | Some iCurrent \<Rightarrow>
          if lower (token_value (lObjects ! iCurrent)) \<in> set mode_keywords
          then (iCurrent + 1,
                lObjects[iCurrent :=
                  assign (''mode.'' @ lower (token_value (lObjects ! iCurrent)) @ ''_keyword'')
                    (lObjects ! iCurrent)])
          else (iToken, lObjects))"

subsection \<open>\<^verbatim>\<open>detect\<close> and \<^verbatim>\<open>classify\<close>\<close>

text \<open>
  The two functions of \<^verbatim>\<open>interface_unknown_declaration.py\<close>. The Python mutates
  \<^verbatim>\<open>lObjects\<close> in place and returns the cursor; the model returns both. An error of
  \<^verbatim>\<open>assign_next_token_required\<close> is not caught and leaves \<^verbatim>\<open>classify\<close>.
\<close>

definition classify :: "nat \<Rightarrow> token list \<Rightarrow> classification_error + nat \<times> token list" where
  "classify iToken lObjects =
     (case identifier_list_classify_until ['':''] iToken lObjects
             ''interface_unknown_declaration.identifier'' of
        (iCurrent, lObjects) \<Rightarrow>
     (case assign_next_token_required '':'' ''interface_unknown_declaration.colon''
             iCurrent lObjects of
        Inl e \<Rightarrow> Inl e
      | Inr (iCurrent, lObjects) \<Rightarrow>
     (case mode_classify iCurrent lObjects of
        (iCurrent, lObjects) \<Rightarrow>
     (case subtype_indication_classify_until ['';'', ''bus'', '':=''] iCurrent lObjects of
        (iCurrent, lObjects) \<Rightarrow>
     (case assign_next_token_if ''bus'' ''interface_unknown_declaration.bus_keyword''
             iCurrent lObjects of
        (iCurrent, lObjects) \<Rightarrow>
     if is_next_token '':='' iCurrent lObjects
     then (case assign_next_token_required '':='' ''interface_unknown_declaration.assignment''
                  iCurrent lObjects of
             Inl e \<Rightarrow> Inl e
           | Inr (iCurrent, lObjects) \<Rightarrow>
               Inr (expression_classify_until '';'' iCurrent lObjects))
     else Inr (iCurrent, lObjects))))))"

definition detect_keywords :: "string list" where
  "detect_keywords =
     [''type'', ''file'', ''function'', ''procedure'', ''impure'', ''pure'', ''package'']"

definition detect :: "nat \<Rightarrow> token list \<Rightarrow> classification_error + nat \<times> token list" where
  "detect iToken lObjects =
     (if is_next_token_one_of detect_keywords iToken lObjects
      then Inr (iToken, lObjects)
      else classify iToken lObjects)"

section \<open>Configuration of a rule\<close>

text \<open>
  Modelled from the spec: \<^verbatim>\<open>vsg/rule.py\<close> is missing; \<^verbatim>\<open>configure\<close> is modelled from the
  spec and from the assertions of \<^verbatim>\<open>test_rule_configure\<close> and
  \<^verbatim>\<open>test_configure_rule_attributes_method\<close>. A rule object is the dictionary of its
  attributes. The configuration is the dictionary
  \<^verbatim>\<open>{rule: {global: {option: value}, <name>_<identifier>: {option: value}}}\<close>. The block
  \<^verbatim>\<open>global\<close> is applied first and the block of the rule after it, so that the rule's own
  value wins. An option is stored when the rule has an attribute of that name, whether
  or not the name is in the list \<^verbatim>\<open>configuration\<close>: the tests configure \<^verbatim>\<open>solution\<close>, which
  is not in that list, and see \<^verbatim>\<open>invalidAttribute\<close> and \<^verbatim>\<open>unknown\<close> dropped until the
  attribute exists. A missing key \<^verbatim>\<open>rule\<close>, \<^verbatim>\<open>global\<close> or \<^verbatim>\<open>name_identifier\<close> is no error;
  joining a name or an identifier that is not a string raises \<^verbatim>\<open>TypeError\<close>.
\<close>

datatype pyval = PNone | PBool bool | PInt int | PStr string | PList "pyval list"

type_synonym py_dict = "(string \<times> pyval) list"
type_synonym rule_object = py_dict
type_synonym rule_configuration = "(string \<times> (string \<times> py_dict) list) list"

text \<open>The constructor \<^verbatim>\<open>rule.rule(name, identifier)\<close>, with the defaults the tests read.\<close>

definition rule :: "pyval \<Rightarrow> pyval \<Rightarrow> rule_object" where
  "rule nm ident =
     [(''name'', nm), (''identifier'', ident), (''solution'', PNone), (''violations'', PList []),
      (''indentSize'', PInt 2), (''phase'', PNone), (''disable'', PBool False),
      (''fixable'', PBool True), (''severity'', PStr ''Error''),
      (''configuration'',
         PList [PStr ''indentSize'', PStr ''phase'', PStr ''disable'', PStr ''fixable'',
                PStr ''severity'']),
      (''groups'', PList [])]"

definition hasattr :: "rule_object \<Rightarrow> string \<Rightarrow> bool" where
  "hasattr self sName \<longleftrightarrow> map_of self sName \<noteq> None"

fun setattr :: "rule_object \<Rightarrow> string \<Rightarrow> pyval \<Rightarrow> rule_object" where
  "setattr [] sName v = [(sName, v)]"
| "setattr ((k, w) # self) sName v =
     (if k = sName then (k, v) # self else (k, w) # setattr self sName v)"

fun configure_attributes :: "rule_object \<Rightarrow> py_dict \<Rightarrow> rule_object" where
  "configure_attributes self [] = self"
| "configure_attributes self ((sAttributeName, v) # dBlock) =
     configure_attributes
       (if hasattr self sAttributeName then setattr self sAttributeName v else self) dBlock"

definition configure_block :: "rule_object \<Rightarrow> (string \<times> py_dict) list \<Rightarrow> string \<Rightarrow> rule_object" where
  "configure_block self dRules sKey =
     (case map_of dRules sKey of None \<Rightarrow> self | Some dBlock \<Rightarrow> configure_attributes self dBlock)"

definition configure :: "rule_object \<Rightarrow> rule_configuration \<Rightarrow> py_error + rule_object" where
  "configure self dConfiguration =
     (case map_of dConfiguration ''rule'' of
        None \<Rightarrow> Inr self
      | Some dRules \<Rightarrow>
          (let self = configure_block self dRules ''global'' in
           case (map_of self ''name'', map_of self ''identifier'') of
             (Some (PStr sName), Some (PStr sIdentifier)) \<Rightarrow>
               Inr (configure_block self dRules (sName @ ''_'' @ sIdentifier))
           | _ \<Rightarrow> Inl TypeError))"

text \<open>The configuration without any option of a given name.\<close>

definition without_key :: "string \<Rightarrow> rule_configuration \<Rightarrow> rule_configuration" where
  "without_key sKey dConfiguration =
     map (\<lambda>(sSection, dRules).
            (sSection, map (\<lambda>(sRule, dBlock). (sRule, filter (\<lambda>(k, v). k \<noteq> sKey) dBlock)) dRules))
         dConfiguration"

section \<open>Alignment in a region\<close>

text \<open>
  Modelled from the spec: the class
  \<^verbatim>\<open>align_tokens_in_region_between_tokens_skipping_lines_starting_with_tokens\<close> is
  missing; \<^verbatim>\<open>rule_029.py\<close> only passes it the classes to align, the start and end token
  of the region and the classes that exempt a line. A region is the list of its lines.
  The column of a token is the number of characters in front of it on its line. A line
  whose first token after its leading whitespace is of an exempted class is skipped.
  The target column is the largest column of the first token to align over the lines
  that are not skipped, and the fix lengthens the whitespace in front of that token (or
  puts whitespace there) until the token stands at the target column.
\<close>

record align_rule =
  align_name :: string
  align_identifier :: string
  lAlign :: "string list"
  oStart :: string
  oEnd :: string
  lSkip :: "string list"
  align_solution :: string
  subphase :: int

text \<open>The constructor of \<^verbatim>\<open>rule_029\<close>.\<close>

definition rule_029 :: align_rule where
  "rule_029 =
     \<lparr>align_name = ''instantiation'', align_identifier = ''029'',
      lAlign = [''parser.comment''],
      oStart = ''component_instantiation_statement.instantiation_label'',
      oEnd = ''component_instantiation_statement.semicolon'',
      lSkip = [''parser.comment''],
      align_solution = ''Align comment.'', subphase = 3\<rparr>"

definition is_whitespace :: "token \<Rightarrow> bool" where
  "is_whitespace oToken \<longleftrightarrow> isinstance oToken ''parser.whitespace''"

definition width :: "token list \<Rightarrow> nat" where
  "width lLine = sum_list (map (\<lambda>oToken. length (token_value oToken)) lLine)"

definition is_aligned_kind :: "align_rule \<Rightarrow> token \<Rightarrow> bool" where
  "is_aligned_kind self oToken \<longleftrightarrow> list_ex (isinstance oToken) (lAlign self)"

definition begins_with_skipped :: "align_rule \<Rightarrow> token list \<Rightarrow> bool" where
  "begins_with_skipped self lLine =
     (case dropWhile is_whitespace lLine of
        [] \<Rightarrow> False
      | oToken # lRest \<Rightarrow> list_ex (isinstance oToken) (lSkip self))"

definition before_aligned :: "align_rule \<Rightarrow> token list \<Rightarrow> token list" where
  "before_aligned self lLine = takeWhile (\<lambda>oToken. \<not> is_aligned_kind self oToken) lLine"

definition from_aligned :: "align_rule \<Rightarrow> token list \<Rightarrow> token list" where
  "from_aligned self lLine = dropWhile (\<lambda>oToken. \<not> is_aligned_kind self oToken) lLine"

definition column :: "align_rule \<Rightarrow> token list \<Rightarrow> nat option" where
  "column self lLine =
     (if from_aligned self lLine = [] then None else Some (width (before_aligned self lLine)))"

definition columns :: "align_rule \<Rightarrow> token list list \<Rightarrow> nat list" where
  "columns self lLines =
     concat (map (\<lambda>lLine. if begins_with_skipped self lLine then []
                            else (case column self lLine of None \<Rightarrow> [] | Some c \<Rightarrow> [c])) lLines)"

definition target_column :: "align_rule \<Rightarrow> token list list \<Rightarrow> nat" where
  "target_column self lLines = foldr max (columns self lLines) 0"

definition pad :: "nat \<Rightarrow> token list \<Rightarrow> token list" where
  "pad n lBefore =
     (if n = 0 then lBefore
      else if lBefore \<noteq> [] \<and> is_whitespace (last lBefore)
      then butlast lBefore @
           [(last lBefore)\<lparr>token_value := token_value (last lBefore) @ replicate n CHR '' ''\<rparr>]
      else lBefore @ [whitespace (replicate n CHR '' '')])"

definition align_line :: "align_rule \<Rightarrow> nat \<Rightarrow> token list \<Rightarrow> token list" where
  "align_line self iColumn lLine =
     (if from_aligned self lLine = [] then lLine
      else pad (iColumn - width (before_aligned self lLine)) (before_aligned self lLine) @
           from_aligned self lLine)"

definition align_fix :: "align_rule \<Rightarrow> token list list \<Rightarrow> token list list" where
  "align_fix self lLines =
     map (\<lambda>lLine. if begins_with_skipped self lLine then lLine
                   else align_line self (target_column self lLines) lLine) lLines"

section \<open>Object declarations as token lists\<close>

text \<open>
  The shape \<^verbatim>\<open>identifier_list : [ mode ] subtype_indication [ bus ] [ := expression ]\<close> of
  the docstring of \<^verbatim>\<open>interface_unknown_declaration.py\<close>, as the lexer hands it over. A
  lexeme is the text of an untyped token with the whitespace, comment and
  line-terminator tokens in front of it. \<^verbatim>\<open>region_ok\<close> says that a run of lexemes has
  balanced parentheses and no terminating symbol outside of them.
\<close>

type_synonym lexeme = "token list \<times> string"

definition layout :: "token list \<Rightarrow> bool" where
  "layout ws \<longleftrightarrow> list_all (\<lambda>oToken. \<not> is_item oToken) ws"

fun lexemes_tokens :: "lexeme list \<Rightarrow> token list" where
  "lexemes_tokens [] = []"
| "lexemes_tokens ((ws, s) # xs) = ws @ item s # lexemes_tokens xs"

fun lexemes_classified :: "(token \<Rightarrow> string) \<Rightarrow> lexeme list \<Rightarrow> token list" where
  "lexemes_classified kind [] = []"
| "lexemes_classified kind ((ws, s) # xs) =
     ws @ assign (kind (item s)) (item s) # lexemes_classified kind xs"

fun region_ok :: "string list \<Rightarrow> nat \<Rightarrow> lexeme list \<Rightarrow> bool" where
  "region_ok lUntils d [] \<longleftrightarrow> d = 0"
| "region_ok lUntils d ((ws, s) # xs) \<longleftrightarrow>
     layout ws \<and> \<not> (d = 0 \<and> (lower s \<in> set lUntils \<or> s = '')'')) \<and>
     region_ok lUntils (if s = ''('' then Suc d else if s = '')'' then d - 1 else d) xs"

text \<open>
  The parts of a declaration, in the order of the grammar, and the tokens in front of
  the terminating semicolon.
\<close>

record object_declaration =
  decl_identifiers :: "lexeme list"
  decl_colon :: "token list"
  decl_mode :: "lexeme option"
  decl_subtype :: "lexeme list"
  decl_bus :: "lexeme option"
  decl_default :: "(token list \<times> lexeme list) option"
  decl_end :: "token list"

definition mode_tokens :: "lexeme option \<Rightarrow> token list" where
  "mode_tokens m = (case m of None \<Rightarrow> [] | Some (ws, s) \<Rightarrow> ws @ [item s])"

definition mode_classified :: "lexeme option \<Rightarrow> token list" where
  "mode_classified m =
     (case m of None \<Rightarrow> []
      | Some (ws, s) \<Rightarrow> ws @ [assign (''mode.'' @ lower s @ ''_keyword'') (item s)])"

definition bus_classified :: "lexeme option \<Rightarrow> token list" where
  "bus_classified b =
     (case b of None \<Rightarrow> []
      | Some (ws, s) \<Rightarrow> ws @ [assign ''interface_unknown_declaration.bus_keyword'' (item s)])"

definition default_tokens :: "(token list \<times> lexeme list) option \<Rightarrow> token list" where
  "default_tokens v =
     (case v of None \<Rightarrow> [] | Some (ws, xs) \<Rightarrow> ws @ item '':='' # lexemes_tokens xs)"

definition default_classified :: "(token list \<times> lexeme list) option \<Rightarrow> token list" where
  "default_classified v =
     (case v of None \<Rightarrow> []
      | Some (ws, xs) \<Rightarrow>
          ws @ assign ''interface_unknown_declaration.assignment'' (item '':='')
             # lexemes_classified (\<lambda>oToken. ''expression.todo'') xs)"

definition declaration_body :: "object_declaration \<Rightarrow> token list" where
  "declaration_body d =
     lexemes_tokens (decl_identifiers d) @ decl_colon d @ item '':'' #
     mode_tokens (decl_mode d) @ lexemes_tokens (decl_subtype d) @
     mode_tokens (decl_bus d) @ default_tokens (decl_default d)"

definition declaration_body_classified :: "object_declaration \<Rightarrow> token list" where
  "declaration_body_classified d =
     lexemes_classified (identifier_kind ''interface_unknown_declaration.identifier'')
       (decl_identifiers d) @ decl_colon d @
     assign ''interface_unknown_declaration.colon'' (item '':'') #
     mode_classified (decl_mode d) @
     lexemes_classified (\<lambda>oToken. ''subtype_indication.todo'') (decl_subtype d) @
     bus_classified (decl_bus d) @ default_classified (decl_default d)"

text \<open>
  A declaration is well formed when its regions are, its mode is one of the mode
  keywords, its subtype indication does not begin with a mode keyword when there is no
  mode, and its \<^verbatim>\<open>bus\<close> is the keyword \<^verbatim>\<open>bus\<close>.
\<close>

definition well_formed :: "object_declaration \<Rightarrow> bool" where
  "well_formed d \<longleftrightarrow>
     region_ok ['':''] 0 (decl_identifiers d) \<and>
     layout (decl_colon d) \<and>
     (case decl_mode d of
        None \<Rightarrow> (case decl_subtype d of [] \<Rightarrow> True
                  | (ws, s) # xs \<Rightarrow> lower s \<notin> set mode_keywords)
      | Some (ws, s) \<Rightarrow> layout ws \<and> lower s \<in> set mode_keywords) \<and>
     region_ok ['';'', ''bus'', '':=''] 0 (decl_subtype d) \<and>
     (case decl_bus d of None \<Rightarrow> True | Some (ws, s) \<Rightarrow> layout ws \<and> lower s = ''bus'') \<and>
     (case decl_default d of None \<Rightarrow> True
      | Some (ws, xs) \<Rightarrow> layout ws \<and> region_ok ['';''] 0 xs) \<and>
     layout (decl_end d)"

section \<open>Example inputs\<close>

text \<open>The declaration \<^verbatim>\<open>x : in std_logic;\<close> as the lexer hands it over, and classified.\<close>

definition declaration_tokens :: "token list" where
  "declaration_tokens =
     [item ''x'', whitespace '' '', item '':'', whitespace '' '', item ''in'', whitespace '' '',
      item ''std_logic'', item '';'']"

definition declaration_classified :: "token list" where
  "declaration_classified =
     [assign ''interface_unknown_declaration.identifier'' (item ''x''), whitespace '' '',
      assign ''interface_unknown_declaration.colon'' (item '':''), whitespace '' '',
      assign ''mode.in_keyword'' (item ''in''), whitespace '' '',
      assign ''subtype_indication.todo'' (item ''std_logic''), item '';'']"

text \<open>The record of \<^verbatim>\<open>x : in std_logic;\<close>.\<close>

definition example_declaration :: object_declaration where
  "example_declaration =
     \<lparr>decl_identifiers = [([], ''x'')], decl_colon = [whitespace '' ''],
      decl_mode = Some ([whitespace '' ''], ''in''),
      decl_subtype = [([whitespace '' ''], ''std_logic'')],
      decl_bus = None, decl_default = None, decl_end = []\<rparr>"

text \<open>The declaration \<^verbatim>\<open>x : std_logic bus ;\<close>, with a space before the semicolon.\<close>

definition bus_tokens :: "token list" where
  "bus_tokens =
     [item ''x'', whitespace '' '', item '':'', whitespace '' '', item ''std_logic'',
      whitespace '' '', item ''bus'', whitespace '' '', item '';'']"

definition bus_tokens_classified :: "token list" where
  "bus_tokens_classified =
     [assign ''interface_unknown_declaration.identifier'' (item ''x''), whitespace '' '',
      assign ''interface_unknown_declaration.colon'' (item '':''), whitespace '' '',
      assign ''subtype_indication.todo'' (item ''std_logic''), whitespace '' '',
      assign ''interface_unknown_declaration.bus_keyword'' (item ''bus''), whitespace '' '',
      item '';'']"






text \<open>
  Three instantiation statements with inline comments at columns 10, 15 and 12, and a
  line that begins with a comment.
\<close>

definition instantiation_line :: "string \<Rightarrow> string \<Rightarrow> string \<Rightarrow> string \<Rightarrow> token list" where
  "instantiation_line sLabel sUnit sSpace sComment =
     [\<lparr>classes = [''component_instantiation_statement.instantiation_label''],
       token_value = sLabel\<rparr>,
      whitespace '' '', item '':'', whitespace '' '', item sUnit,
      \<lparr>classes = [''component_instantiation_statement.semicolon''], token_value = '';''\<rparr>,
      whitespace sSpace, comment sComment]"

definition instantiation_region :: "token list list" where
  "instantiation_region =
     [instantiation_line ''U1'' ''blk'' '' '' ''-- first'',
      instantiation_line ''U2'' ''counter'' ''  '' ''-- second'',
      instantiation_line ''U3'' ''fifo'' ''  '' ''-- third'',
      [whitespace ''  '', comment ''-- a line of its own'']]"

definition instantiation_region_aligned :: "token list list" where
  "instantiation_region_aligned =
     [instantiation_line ''U1'' ''blk'' ''      '' ''-- first'',
      instantiation_line ''U2'' ''counter'' ''  '' ''-- second'',
      instantiation_line ''U3'' ''fifo'' ''     '' ''-- third'',
      [whitespace ''  '', comment ''-- a line of its own'']]"

text \<open>The rule and the configurations of \<^verbatim>\<open>test_rule_configure\<close>.\<close>

definition test_rule :: rule_object where
  "test_rule =
     setattr (setattr (setattr (rule PNone PNone) ''name'' (PStr ''xyz''))
       ''identifier'' (PStr ''001'')) ''solution'' (PStr ''This is my solution'')"

definition solution_configuration :: rule_configuration where
  "solution_configuration =
     [(''rule'',
       [(''xyz_001'', [(''disable'', PBool True),
                       (''solution'', PStr ''This is the new solution'')]),
        (''xyz_002'', [(''disable'', PBool False)])])]"

definition invalid_configuration :: rule_configuration where
  "invalid_configuration =
     [(''rule'',
       [(''xyz_001'', [(''disable'', PBool True),
                       (''solution'', PStr ''This is the new solution''),
                       (''invalidAttribute'', PBool False)]),
        (''xyz_002'', [(''disable'', PBool False)]),
        (''global'', [(''indentSize'', PInt 4)])])]"

definition test_rule_configured :: rule_object where
  "test_rule_configured =
     [(''name'', PStr ''xyz''), (''identifier'', PStr ''001''),
      (''solution'', PStr ''This is the new solution''), (''violations'', PList []),
      (''indentSize'', PInt 4), (''phase'', PNone), (''disable'', PBool True),
      (''fixable'', PBool True), (''severity'', PStr ''Error''),
      (''configuration'',
         PList [PStr ''indentSize'', PStr ''phase'', PStr ''disable'', PStr ''fixable'',
                PStr ''severity'']),
      (''groups'', PList [])]"

text \<open>The rule and the configuration of \<^verbatim>\<open>test_configure_rule_attributes_method\<close>.\<close>

definition xyz_rule :: rule_object where
  "xyz_rule = setattr (setattr (rule PNone PNone) ''name'' (PStr ''xyz''))
                ''identifier'' (PStr ''001'')"

definition attributes_configuration :: rule_configuration where
  "attributes_configuration =
     [(''rule'',
       [(''xyz_001'', [(''indentSize'', PInt 4), (''phase'', PInt 10), (''disable'', PBool True),
                       (''fixable'', PBool False), (''unknown'', PStr ''New'')])])]"

text \<open>The result of a call that may raise, when it does not.\<close>

definition projr_option :: "'e + 'a \<Rightarrow> 'a option" where
  "projr_option r = (case r of Inl e \<Rightarrow> None | Inr x \<Rightarrow> Some x)"

text \<open>The interface type declaration \<^verbatim>\<open>type t;\<close>, which \<^verbatim>\<open>detect\<close> leaves alone.\<close>

definition type_tokens :: "token list" where
  "type_tokens = [item ''type'', whitespace '' '', item ''t'', item '';'']"

text \<open>
  A rule that asks for a blank line below a line ending with the keyword \<^verbatim>\<open>is\<close> and
  lets comments pass, and three token ranges: a blank line, a comment line and a
  signal declaration.
\<close>

definition example_rule :: blank_line_rule where
  "example_rule = init_rule ''architecture'' ''015'' [''architecture_body.is_keyword'']
     [''parser.comment'']"

definition blank_toi :: Tokens where
  "blank_toi = mk_Tokens 5 2 [blank_line]"

definition comment_toi :: Tokens where
  "comment_toi = mk_Tokens 12 7 [whitespace ''  '', comment ''-- ports'']"

definition signal_toi :: Tokens where
  "signal_toi = mk_Tokens 20 11 [whitespace ''  '', item ''signal'', whitespace '' '', item ''a'']"

section \<open>Properties of the blank-line rule\<close>

lemma any_instance_iff: "any_instance lTok a \<longleftrightarrow> (\<exists>t \<in> set lTok. isinstance t a)"
  by (induction lTok) auto

lemma is_allowed_token_iff:
  "is_allowed_token lAllow lTok \<longleftrightarrow> (\<exists>a \<in> set lAllow. \<exists>t \<in> set lTok. isinstance t a)"
  by (induction lAllow) (auto simp: any_instance_iff)

lemma solution_add_violation [simp]: "solution (add_violation self v) = solution self"
  by (simp add: add_violation_def)

lemma violations_add_violation [simp]:
  "violations (add_violation self v) = violations self @ [v]"
  by (simp add: add_violation_def)

lemma require_blank_line_filter:
  "violations (analyze_require_blank_line self lToi lAllow) =
     violations self @
     map (insert_violation self)
       (filter (\<lambda>oT. \<not> (single_blank_line (lTokens oT) \<or> is_allowed_token lAllow (lTokens oT))) lToi)
   \<and> solution (analyze_require_blank_line self lToi lAllow) = solution self"
proof (induction lToi arbitrary: self)
  case Nil
  show ?case by simp
next
  case (Cons oT lToi)
  show ?case
    using Cons.IH [of self]
          Cons.IH [of "add_violation self
             (set_action (New (iLine oT - 1) oT (solution self)) [(''action'', ''Insert'')])"]
    by (simp add: single_blank_line_def insert_violation_def New_def set_action_def)
qed


lemma no_blank_line_map:
  "violations (analyze_no_blank_line self lToi lAllow) =
     violations self @ map (remove_violation self) lToi
   \<and> solution (analyze_no_blank_line self lToi lAllow) = solution self"
proof (induction lToi arbitrary: self)
  case Nil
  show ?case by simp
next
  case (Cons oT lToi)
  show ?case
    using Cons.IH [of "add_violation self
             (set_action (New (iLine oT + 1) oT (solution self)) [(''action'', ''Remove'')])"]
    by (simp add: remove_violation_def New_def set_action_def)
qed

lemma no_blank_line_allow_irrelevant:
  "analyze_no_blank_line self lToi lAllow = analyze_no_blank_line self lToi lAllow'"
  by (induction lToi arbitrary: self) simp_all

text \<open>
  C6. In the style \<^verbatim>\<open>require_blank_line\<close> the analysis passes over a token range of
  interest exactly when the range is a single blank-line token or holds a token that
  is an instance of a class of the allow-list. Every other range, in the order of the
  query, adds one violation, and that violation carries the action \<^verbatim>\<open>Insert\<close>.
\<close>

theorem require_blank_line_decision:
  assumes "style self = ''require_blank_line''"
  shows "violations (rule_analyze self lToi) =
           violations self @
           map (insert_violation self)
             (filter (\<lambda>oT. \<not> (single_blank_line (lTokens oT) \<or>
                               (\<exists>a \<in> set (lAllowTokens self). \<exists>t \<in> set (lTokens oT).
                                   isinstance t a))) lToi)
         \<and> (\<forall>oT. dAction (insert_violation self oT) = [(''action'', ''Insert'')])"
  using assms require_blank_line_filter [of self lToi "lAllowTokens self"]
  by (simp add: rule_analyze_def is_allowed_token_iff insert_violation_def)

theorem require_blank_line_decision_witness:
  "style example_rule = ''require_blank_line'' \<and>
   violations (rule_analyze example_rule [blank_toi, comment_toi, signal_toi]) =
     [insert_violation example_rule signal_toi]"
  using require_blank_line_decision [of example_rule "[blank_toi, comment_toi, signal_toi]"]
  by (simp add: example_rule_def init_rule_def blank_toi_def comment_toi_def signal_toi_def
        mk_Tokens_def single_blank_line_def isinstance_def blank_line_def whitespace_def
        comment_def item_def)

text \<open>
  C9. In the style \<^verbatim>\<open>no_blank_line\<close> every token range of interest adds a violation,
  whatever it holds; the violation carries the action \<^verbatim>\<open>Remove\<close>, its repair leaves no
  token in the range, and the analysis gives the same result for every allow-list.
\<close>

theorem no_blank_line_decision:
  assumes "style self = ''no_blank_line''"
  shows "violations (rule_analyze self lToi) =
           violations self @ map (remove_violation self) lToi
         \<and> (\<forall>oT. dAction (remove_violation self oT) = [(''action'', ''Remove'')]
               \<and> fix_violation (remove_violation self oT) =
                   Inr (set_tokens (remove_violation self oT) [])
               \<and> get_tokens (set_tokens (remove_violation self oT) []) = [])
         \<and> (\<forall>lAllow. violations (rule_analyze (self\<lparr>lAllowTokens := lAllow\<rparr>) lToi) =
               violations (rule_analyze self lToi))"
proof -
  have "violations (analyze_no_blank_line (self\<lparr>lAllowTokens := lAllow\<rparr>) lToi lAllow) =
        violations (analyze_no_blank_line self lToi (lAllowTokens self))" for lAllow
    using no_blank_line_map [of "self\<lparr>lAllowTokens := lAllow\<rparr>" lToi lAllow]
          no_blank_line_map [of self lToi "lAllowTokens self"]
    by (simp add: remove_violation_def)
  then show ?thesis
    using assms no_blank_line_map [of self lToi "lAllowTokens self"]
    by (simp add: rule_analyze_def remove_violation_def fix_violation_def set_tokens_def
          get_tokens_def)
qed

theorem no_blank_line_decision_witness:
  "style (example_rule\<lparr>style := ''no_blank_line''\<rparr>) = ''no_blank_line'' \<and>
   violations (rule_analyze (example_rule\<lparr>style := ''no_blank_line''\<rparr>) [blank_toi, comment_toi]) =
     [remove_violation example_rule blank_toi, remove_violation example_rule comment_toi] \<and>
   fix_violation (remove_violation example_rule blank_toi) =
     Inr (set_tokens (remove_violation example_rule blank_toi) [])"
  using no_blank_line_decision [of "example_rule\<lparr>style := ''no_blank_line''\<rparr>"
          "[blank_toi, comment_toi]"]
  by (simp add: example_rule_def init_rule_def remove_violation_def fix_violation_def)

subsection \<open>The rule on a stream\<close>

lemma no_cr_simps [simp]: "no_cr []" "no_cr (t # l) \<longleftrightarrow> \<not> is_carriage_return t \<and> no_cr l"
  by (simp_all add: no_cr_def)

lemma is_cr_cr [simp]: "is_carriage_return carriage_return"
  by (simp add: is_carriage_return_def isinstance_def carriage_return_def)

lemma not_cr_blank [simp]: "\<not> is_carriage_return blank_line"
  by (simp add: is_carriage_return_def isinstance_def blank_line_def)

lemma split_lines_no_cr: "no_cr a \<Longrightarrow> split_lines a = (if a = [] then [] else [a])"
  by (induction a) auto




lemma single_blank_line_blank [simp]: "single_blank_line [blank_line]"
  by (simp add: single_blank_line_def isinstance_def blank_line_def)





subsection \<open>One fix is enough: the style \<^verbatim>\<open>require_blank_line\<close> on any stream\<close>

lemma join_lines_simps [simp]:
  "join_lines [] t = t"
  "join_lines ((l, c) # ls) t = l @ c # join_lines ls t"
  by (simp_all add: join_lines_def)

lemma lines_of_Cons [simp]: "lines_of ((l, c) # ls) t = l # lines_of ls t"
  by (simp add: lines_of_def)

lemma well_terminated_simps [simp]:
  "well_terminated [] t \<longleftrightarrow> no_cr t"
  "well_terminated ((l, c) # ls) t \<longleftrightarrow> no_cr l \<and> is_carriage_return c \<and> well_terminated ls t"
  by (auto simp: well_terminated_def)

lemma split_lines_cr:
  "no_cr a \<Longrightarrow> is_carriage_return c \<Longrightarrow> split_lines (a @ c # r) = a # split_lines r"
  by (induction a) auto

lemma split_lines_join:
  "well_terminated ls t \<Longrightarrow> split_lines (join_lines ls t) = lines_of ls t"
proof (induction ls)
  case Nil
  then show ?case by (simp add: lines_of_def split_lines_no_cr)
next
  case (Cons x ls)
  obtain l c where "x = (l, c)" by (cases x)
  with Cons show ?case by (simp add: split_lines_cr)
qed

lemma stream_lines: "\<exists>ls t. s = join_lines ls t \<and> well_terminated ls t"
proof (induction s)
  case Nil
  have "[] = join_lines [] [] \<and> well_terminated [] []" by simp
  then show ?case by blast
next
  case (Cons x s)
  then obtain ls t where s: "s = join_lines ls t" "well_terminated ls t" by blast
  show ?case
  proof (cases "is_carriage_return x")
    case True
    then have "x # s = join_lines (([], x) # ls) t \<and> well_terminated (([], x) # ls) t"
      using s by simp
    then show ?thesis by blast
  next
    case False
    show ?thesis
    proof (cases ls)
      case Nil
      then have "x # s = join_lines [] (x # t) \<and> well_terminated [] (x # t)"
        using s False by simp
      then show ?thesis by blast
    next
      case (Cons y ls')
      obtain l c where "y = (l, c)" by (cases y)
      then have "x # s = join_lines ((x # l, c) # ls') t \<and> well_terminated ((x # l, c) # ls') t"
        using s False Cons by simp
      then show ?thesis by blast
    qed
  qed
qed


lemma lines_below_range:
  "oT \<in> set (lines_below T i n (b # L)) \<Longrightarrow>
   i + length b + 1 \<le> iStartIndex oT \<and> iEndIndex oT = iStartIndex oT + length (lTokens oT)"
proof (induction L arbitrary: i n b)
  case Nil
  then show ?case by simp
next
  case (Cons c L)
  from Cons.prems consider
    "oT = mk_Tokens (i + length b + 1) (n + 1) c"
    | "oT \<in> set (lines_below T (i + length b + 1) (n + 1) (c # L))"
    by (auto split: if_splits)
  then show ?case
  proof cases
    case 1
    then show ?thesis by (simp add: mk_Tokens_def)
  next
    case 2
    from Cons.IH [OF 2] show ?thesis by simp
  qed
qed

lemma update_skip:
  assumes "\<forall>v \<in> set vs. j + length b \<le> iStartIndex (oToi v) \<and>
             iStartIndex (oToi v) \<le> iEndIndex (oToi v)"
  shows "update j (b @ R) vs = b @ update (j + length b) R vs"
proof (cases vs)
  case Nil
  then show ?thesis by simp
next
  case (Cons v vs')
  with assms have "j + length b \<le> iStartIndex (oToi v)" "iStartIndex (oToi v) \<le> iEndIndex (oToi v)"
    by auto
  then have "iStartIndex (oToi v) - j = length b + (iStartIndex (oToi v) - (j + length b))"
    "iEndIndex (oToi v) - j = length b + (iEndIndex (oToi v) - (j + length b))"
    by arith+
  then show ?thesis using Cons by simp
qed

lemma insert_fixed_range [simp]:
  "iStartIndex (oToi (insert_fixed self oT)) = iStartIndex oT"
  "iEndIndex (oToi (insert_fixed self oT)) = iEndIndex oT"
  "lTokens (oToi (insert_fixed self oT)) = blank_line # carriage_return # lTokens oT"
  by (simp_all add: insert_fixed_def set_tokens_def insert_violation_def)

lemma fixed_violations_range:
  assumes "v \<in> set (map (insert_fixed self) (filter (violating self) (lines_below T i n (b # L))))"
  shows "i + length b \<le> iStartIndex (oToi v) \<and> iStartIndex (oToi v) \<le> iEndIndex (oToi v)"
proof -
  from assms obtain oT where "oT \<in> set (lines_below T i n (b # L))" "v = insert_fixed self oT"
    by auto
  with lines_below_range [of oT T i n b L] show ?thesis by simp
qed

lemma update_lines:
  assumes "well_terminated ls t"
  shows "update i (join_lines ls t)
           (map (insert_fixed self)
              (filter (violating self) (lines_below (lTokens_of self) i n (lines_of ls t)))) =
         blank_lines_inserted self ls t"
  using assms
proof (induction ls arbitrary: i n)
  case Nil
  then show ?case by (simp add: lines_of_def)
next
  case (Cons x ls)
  obtain l c where x: "x = (l, c)" by (cases x)
  let ?T = "lTokens_of self"
  let ?j = "i + length l + 1"
  let ?vs = "map (insert_fixed self)
               (filter (violating self) (lines_below ?T ?j (n + 1) (lines_of ls t)))"
  have wt: "well_terminated ls t" using Cons.prems x by simp
  have ih: "update ?j (join_lines ls t) ?vs = blank_lines_inserted self ls t"
    using Cons.IH [OF wt] .
  show ?case
  proof (cases "lines_of ls t")
    case Nil
    then have "ls = []" "t = []" by (auto simp: lines_of_def split: if_splits)
    then show ?thesis using x by (simp add: lines_of_def needs_blank_line_def)
  next
    case (Cons b L)
    have first: "\<exists>R. join_lines ls t = b @ R"
    proof (cases ls)
      case Nil
      with Cons show ?thesis by (auto simp: lines_of_def split: if_splits)
    next
      case (Cons y ls')
      obtain l' c' where "y = (l', c')" by (cases y)
      with Cons \<open>lines_of ls t = b # L\<close> show ?thesis by auto
    qed
    then obtain R where R: "join_lines ls t = b @ R" by blast
    have rng: "\<forall>v \<in> set ?vs. ?j + length b \<le> iStartIndex (oToi v) \<and>
                 iStartIndex (oToi v) \<le> iEndIndex (oToi v)"
      using fixed_violations_range [of _ self ?T ?j "n + 1" b L] Cons by simp
    have rng': "\<forall>v \<in> set ?vs. i + length (l @ [c]) \<le> iStartIndex (oToi v) \<and>
                 iStartIndex (oToi v) \<le> iEndIndex (oToi v)"
      using rng by auto
    show ?thesis
    proof (cases "needs_blank_line self l (b # L)")
      case True
      then have e: "ends_with_token ?T l" and v: "violating self (mk_Tokens ?j (n + 1) b)"
        by (auto simp: needs_blank_line_def violating_def mk_Tokens_def)
      have "update i (l @ c # b @ R) (insert_fixed self (mk_Tokens ?j (n + 1) b) # ?vs) =
              l @ c # blank_line # carriage_return # b @ update (?j + length b) R ?vs"
        by (simp add: mk_Tokens_def)
      also have "b @ update (?j + length b) R ?vs = update ?j (b @ R) ?vs"
        using update_skip [OF rng, of R] by simp
      finally show ?thesis
        using x Cons True e v ih R by simp
    next
      case False
      then have "filter (violating self)
                   (lines_below ?T i n (l # b # L)) =
                 filter (violating self) (lines_below ?T ?j (n + 1) (b # L))"
        by (auto simp: needs_blank_line_def violating_def mk_Tokens_def)
      moreover have "update i ((l @ [c]) @ join_lines ls t) ?vs =
                     (l @ [c]) @ update (i + length (l @ [c])) (join_lines ls t) ?vs"
        using rng' by (rule update_skip)
      ultimately show ?thesis
        using x Cons False ih by simp
    qed
  qed
qed


lemma split_lines_inserted:
  "well_terminated ls t \<Longrightarrow>
   split_lines (blank_lines_inserted self ls t) = lines_with_blank_lines self (lines_of ls t)"
proof (induction ls)
  case Nil
  then show ?case by (simp add: lines_of_def split_lines_no_cr needs_blank_line_def)
next
  case (Cons x ls)
  obtain l c where x: "x = (l, c)" by (cases x)
  have b: "split_lines (blank_line # carriage_return # X) = [blank_line] # split_lines X" for X
    by simp
  show ?case
    using Cons x by (simp add: split_lines_cr b del: split_lines.simps)
qed

lemma no_violation_left:
  assumes "\<not> ends_with_token (lTokens_of self) [blank_line]"
  shows "filter (violating self)
           (lines_below (lTokens_of self) i n (lines_with_blank_lines self L)) = []"
proof (induction L arbitrary: i n)
  case Nil
  show ?case by simp
next
  case (Cons l L)
  show ?case
  proof (cases L)
    case Nil
    then show ?thesis by (simp add: needs_blank_line_def)
  next
    case (Cons b L')
    obtain X where X: "lines_with_blank_lines self L = b # X"
      using Cons by simp
    have ih: "filter (violating self) (lines_below (lTokens_of self) j m (b # X)) = []" for j m
      using Cons.IH [of j m] X by simp
    show ?thesis
    proof (cases "needs_blank_line self l L")
      case True
      have "\<not> violating self (mk_Tokens j m [blank_line])" for j m
        by (simp add: violating_def mk_Tokens_def)
      then show ?thesis
        using True X ih assms by simp
    next
      case False
      then have "ends_with_token (lTokens_of self) l \<Longrightarrow> \<not> violating self (mk_Tokens j m b)"
        for j m
        using Cons by (simp add: needs_blank_line_def violating_def mk_Tokens_def)
      then show ?thesis
        using False X ih by simp
    qed
  qed
qed

lemma fix_violations_insert:
  "fix_violations (map (insert_violation self) lToi) = Inr (map (insert_fixed self) lToi)"
  by (induction lToi)
     (simp_all add: fix_violation_def insert_violation_def insert_fixed_def get_tokens_def)

lemma analyze_require:
  assumes "style self = ''require_blank_line''" "lHierarchyLimits self = None"
  shows "violations (analyze oFile self s) =
           map (insert_violation self)
             (filter (violating self) (lines_below (lTokens_of self) 0 1 (split_lines s)))"
proof -
  have "insert_violation (self\<lparr>violations := []\<rparr>) = insert_violation self"
    by (simp add: insert_violation_def fun_eq_iff)
  moreover have "violating self =
      (\<lambda>oT. \<not> (single_blank_line (lTokens oT) \<or> is_allowed_token (lAllowTokens self) (lTokens oT)))"
    by (simp add: violating_def fun_eq_iff)
  ultimately show ?thesis
    using assms require_blank_line_filter [of "self\<lparr>violations := []\<rparr>" _ "lAllowTokens self"]
    by (simp add: analyze_def get_tokens_of_interest_def rule_analyze_def
          get_line_below_line_ending_with_token_def)
qed

text \<open>
  For a rule in the style \<^verbatim>\<open>require_blank_line\<close> without hierarchy limits whose
  configured classes do not include the blank-line token, the fix succeeds on every
  stream and the analysis of the fixed stream records no violation.
\<close>

lemma fix_then_analyze:
  assumes st: "style self = ''require_blank_line''" and hl: "lHierarchyLimits self = None"
    and bl: "\<not> ends_with_token (lTokens_of self) [blank_line]"
  shows "\<exists>oFixed lFixed. rule_fix oFile self lAllObjects = Inr (oFixed, lFixed) \<and>
           violations (analyze oFile self lFixed) = []"
proof -
  obtain ls t where s: "lAllObjects = join_lines ls t" and wt: "well_terminated ls t"
    using stream_lines by blast
  let ?tois = "filter (violating self) (lines_below (lTokens_of self) 0 1 (lines_of ls t))"
  have v: "violations (analyze oFile self (join_lines ls t)) = map (insert_violation self) ?tois"
    using analyze_require [OF st hl] wt by (simp add: split_lines_join)
  have f: "rule_fix oFile self (join_lines ls t) =
             Inr ((analyze oFile self (join_lines ls t))
                    \<lparr>violations := map (insert_fixed self) ?tois\<rparr>,
                  blank_lines_inserted self ls t)"
    using update_lines [OF wt, of 0 self 1]
    by (simp add: rule_fix_def v fix_violations_insert)
  have "violations (analyze oFile self (blank_lines_inserted self ls t)) = []"
    using analyze_require [OF st hl, of oFile "blank_lines_inserted self ls t"]
          no_violation_left [OF bl, of 0 1 "lines_of ls t"] wt
    by (simp add: split_lines_inserted)
  with f show ?thesis unfolding s by blast
qed

section \<open>Properties of the classifier\<close>

lemma find_item_bounds: "find_item l = Some k \<Longrightarrow> k < length l \<and> is_item (l ! k)"
  by (induction l arbitrary: k) (auto split: if_splits)

lemma find_next_token_bounds:
  "find_next_token i l = Some j \<Longrightarrow> i \<le> j \<and> j < length l \<and> is_item (l ! j)"
  by (auto simp: find_next_token_def dest!: find_item_bounds)

lemma scan_until_length:
  "scan_until kind U d l = (n, l') \<Longrightarrow> n \<le> length l \<and> length l' = length l"
  by (induction kind U d l arbitrary: n l' rule: scan_until.induct)
     (auto split: if_splits prod.splits)

lemma classify_until_advances:
  "classify_until kind U i l = (c, l') \<Longrightarrow> i \<le> c \<and> length l' = length l"
  by (auto simp: classify_until_def split: prod.splits dest!: scan_until_length)

lemma assign_next_token_required_advances:
  "assign_next_token_required s cls i l = Inr (c, l') \<Longrightarrow> i < c \<and> length l' = length l"
  by (auto simp: assign_next_token_required_def split: option.splits if_splits
           dest!: find_next_token_bounds)

lemma assign_next_token_if_advances:
  "assign_next_token_if s cls i l = (c, l') \<Longrightarrow> i \<le> c \<and> length l' = length l"
  by (auto simp: assign_next_token_if_def split: option.splits if_splits
           dest!: find_next_token_bounds)

lemma mode_classify_advances:
  "mode_classify i l = (c, l') \<Longrightarrow> i \<le> c \<and> length l' = length l"
  by (auto simp: mode_classify_def split: option.splits if_splits
           dest!: find_next_token_bounds)

lemma classify_advances:
  assumes "classify i l = Inr (c, l')"
  shows "i < c \<and> length l' = length l"
proof -
  obtain c1 l1 where s1: "identifier_list_classify_until ['':''] i l
      ''interface_unknown_declaration.identifier'' = (c1, l1)"
    by (cases "identifier_list_classify_until ['':''] i l
      ''interface_unknown_declaration.identifier''") auto
  from assms s1 obtain c2 l2 where s2: "assign_next_token_required '':''
      ''interface_unknown_declaration.colon'' c1 l1 = Inr (c2, l2)"
    by (auto simp: classify_def split: sum.splits)
  obtain c3 l3 where s3: "mode_classify c2 l2 = (c3, l3)"
    by (cases "mode_classify c2 l2") auto
  obtain c4 l4 where
    s4: "subtype_indication_classify_until ['';'', ''bus'', '':=''] c3 l3 = (c4, l4)"
    by (cases "subtype_indication_classify_until ['';'', ''bus'', '':=''] c3 l3") auto
  obtain c5 l5 where s5: "assign_next_token_if ''bus''
      ''interface_unknown_declaration.bus_keyword'' c4 l4 = (c5, l5)"
    by (cases "assign_next_token_if ''bus''
      ''interface_unknown_declaration.bus_keyword'' c4 l4") auto
  have b1: "i \<le> c1 \<and> length l1 = length l"
    using s1 by (auto simp: identifier_list_classify_until_def dest!: classify_until_advances)
  have b2: "c1 < c2 \<and> length l2 = length l1"
    using s2 by (rule assign_next_token_required_advances)
  have b3: "c2 \<le> c3 \<and> length l3 = length l2"
    using s3 by (rule mode_classify_advances)
  have b4: "c3 \<le> c4 \<and> length l4 = length l3"
    using s4 by (auto simp: subtype_indication_classify_until_def dest!: classify_until_advances)
  have b5: "c4 \<le> c5 \<and> length l5 = length l4"
    using s5 by (rule assign_next_token_if_advances)
  show ?thesis
  proof (cases "is_next_token '':='' c5 l5")
    case False
    with assms s1 s2 s3 s4 s5 have "c = c5 \<and> l' = l5"
      by (simp add: classify_def)
    with b1 b2 b3 b4 b5 show ?thesis by simp
  next
    case True
    with assms s1 s2 s3 s4 s5 obtain c6 l6 where
      s6: "assign_next_token_required '':='' ''interface_unknown_declaration.assignment'' c5 l5
             = Inr (c6, l6)"
      and s7: "expression_classify_until '';'' c6 l6 = (c, l')"
      by (auto simp: classify_def split: sum.splits)
    have b6: "c5 < c6 \<and> length l6 = length l5"
      using s6 by (rule assign_next_token_required_advances)
    have b7: "c6 \<le> c \<and> length l' = length l6"
      using s7 by (auto simp: expression_classify_until_def dest!: classify_until_advances)
    from b1 b2 b3 b4 b5 b6 b7 show ?thesis by simp
  qed
qed

lemmas classifier_defs =
  detect_def classify_def identifier_list_classify_until_def identifier_kind_def
  classify_until_def
  subtype_indication_classify_until_def expression_classify_until_def mode_classify_def
  assign_next_token_required_def assign_next_token_if_def is_next_token_def
  is_next_token_one_of_def find_next_token_def item_def is_item_def whitespace_def
  detect_keywords_def mode_keywords_def lower_def lower_char_def assign_def

lemma declaration_not_keyword:
  "\<not> is_next_token_one_of detect_keywords 0 declaration_tokens"
  by (simp add: classifier_defs declaration_tokens_def)

lemma detect_declaration: "detect 0 declaration_tokens = Inr (7, declaration_classified)"
  by (simp add: classifier_defs declaration_tokens_def declaration_classified_def)

lemma type_is_keyword: "is_next_token_one_of detect_keywords 0 type_tokens"
  by (simp add: classifier_defs type_tokens_def)

text \<open>
  C10. When the next token at the cursor is one of \<^verbatim>\<open>type\<close>, \<^verbatim>\<open>file\<close>, \<^verbatim>\<open>function\<close>,
  \<^verbatim>\<open>procedure\<close>, \<^verbatim>\<open>impure\<close>, \<^verbatim>\<open>pure\<close> and \<^verbatim>\<open>package\<close>, \<^verbatim>\<open>detect\<close> returns the cursor it was
  given and the token list as it was; for every other next token, and at the end of the
  stream, it is \<^verbatim>\<open>classify\<close>.
\<close>

theorem detect_keyword_or_classify:
  "(is_next_token_one_of
      [''type'', ''file'', ''function'', ''procedure'', ''impure'', ''pure'', ''package'']
      iToken lObjects
    \<longrightarrow> detect iToken lObjects = Inr (iToken, lObjects)) \<and>
   (\<not> is_next_token_one_of
      [''type'', ''file'', ''function'', ''procedure'', ''impure'', ''pure'', ''package'']
      iToken lObjects
    \<longrightarrow> detect iToken lObjects = classify iToken lObjects)"
  by (simp add: detect_def detect_keywords_def)

theorem detect_keyword_or_classify_witness:
  "is_next_token_one_of
      [''type'', ''file'', ''function'', ''procedure'', ''impure'', ''pure'', ''package'']
      0 type_tokens \<and>
   detect 0 type_tokens = Inr (0, type_tokens) \<and>
   \<not> is_next_token_one_of
      [''type'', ''file'', ''function'', ''procedure'', ''impure'', ''pure'', ''package'']
      0 declaration_tokens \<and>
   detect 0 declaration_tokens = classify 0 declaration_tokens \<and>
   classify 0 declaration_tokens = Inr (7, declaration_classified)"
  using detect_keyword_or_classify [of 0 type_tokens]
        detect_keyword_or_classify [of 0 declaration_tokens]
        type_is_keyword declaration_not_keyword detect_declaration
  by (simp add: detect_keywords_def)

text \<open>
  C3, as stated, fails: on \<^verbatim>\<open>type t;\<close> the fallback is invoked through \<^verbatim>\<open>detect\<close> at cursor
  0 and returns cursor 0, which is not greater than 0.
\<close>

theorem detect_type_no_progress:
  "detect 0 type_tokens = Inr (0, type_tokens) \<and> \<not> (0 :: nat) < 0"
  using type_is_keyword by (simp add: detect_def)

text \<open>
  C3, amended. When the next token is none of the seven keywords and \<^verbatim>\<open>detect\<close> returns
  a cursor (the classification did not fail for a missing colon or \<^verbatim>\<open>:=\<close>), the cursor
  returned is strictly greater than the cursor given.
\<close>

theorem detect_progress:
  "\<not> is_next_token_one_of detect_keywords iToken lObjects \<Longrightarrow>
   detect iToken lObjects = Inr (iCurrent, lClassified) \<Longrightarrow> iToken < iCurrent"
  by (simp add: detect_def classify_advances)

theorem detect_progress_witness:
  "\<not> is_next_token_one_of detect_keywords 0 declaration_tokens \<and>
   detect 0 declaration_tokens = Inr (7, declaration_classified) \<and> (0 :: nat) < 7"
  using detect_progress [OF declaration_not_keyword detect_declaration]
        declaration_not_keyword detect_declaration
  by simp

subsection \<open>Classification of a well-formed declaration\<close>

lemma is_item_item [simp]: "is_item (item v)"
  by (simp add: is_item_def item_def)

lemma token_value_item [simp]: "token_value (item v) = v"
  by (simp add: item_def)

lemma layout_simps [simp]:
  "layout []" "layout (t # ws) \<longleftrightarrow> \<not> is_item t \<and> layout ws"
  "layout (ws @ ws') \<longleftrightarrow> layout ws \<and> layout ws'"
  by (auto simp: layout_def)

lemma layout_drop: "layout ws \<Longrightarrow> layout (drop k ws)"
  by (auto simp: layout_def list_all_iff dest: in_set_dropD)

lemma find_item_layout: "layout ws \<Longrightarrow> find_item (ws @ item v # r) = Some (length ws)"
  by (induction ws) auto

lemma find_next_token_lexeme:
  assumes "layout ws" "k \<le> length ws"
  shows "find_next_token (length P + k) (P @ ws @ item v # r) = Some (length P + length ws)"
proof -
  have "drop (length P + k) (P @ ws @ item v # r) = drop k ws @ item v # r"
    using assms by simp
  moreover have "find_item (drop k ws @ item v # r) = Some (length (drop k ws))"
    using assms by (intro find_item_layout layout_drop)
  ultimately show ?thesis using assms by (simp add: find_next_token_def)
qed

lemma nth_lexeme [simp]: "(P @ ws @ x # r) ! (length P + length ws) = x"
  by (metis append.assoc length_append nth_append_length)

lemma update_lexeme [simp]: "(P @ ws @ x # r)[length P + length ws := y] = P @ ws @ y # r"
  by (metis append.assoc length_append list_update_length)

lemma required_lexeme:
  assumes "layout ws" "k \<le> length ws" "lower v = s"
  shows "assign_next_token_required s cls (length P + k) (P @ ws @ item v # r) =
           Inr (length P + length ws + 1, P @ ws @ assign cls (item v) # r)"
  using assms by (simp add: assign_next_token_required_def find_next_token_lexeme)

lemma if_lexeme:
  assumes "layout ws" "k \<le> length ws" "lower v = s"
  shows "assign_next_token_if s cls (length P + k) (P @ ws @ item v # r) =
           (length P + length ws + 1, P @ ws @ assign cls (item v) # r)"
  using assms by (simp add: assign_next_token_if_def find_next_token_lexeme)

lemma if_other_lexeme:
  assumes "layout ws" "k \<le> length ws" "lower v \<noteq> s"
  shows "assign_next_token_if s cls (length P + k) (P @ ws @ item v # r) =
           (length P + k, P @ ws @ item v # r)"
  using assms by (simp add: assign_next_token_if_def find_next_token_lexeme)

lemma is_next_lexeme:
  assumes "layout ws" "k \<le> length ws"
  shows "is_next_token s (length P + k) (P @ ws @ item v # r) \<longleftrightarrow> lower v = s"
  using assms by (simp add: is_next_token_def find_next_token_lexeme)

lemma mode_lexeme:
  assumes "layout ws" "lower v \<in> set mode_keywords"
  shows "mode_classify (length P) (P @ ws @ item v # r) =
           (length P + length ws + 1,
            P @ ws @ assign (''mode.'' @ lower v @ ''_keyword'') (item v) # r)"
  using assms find_next_token_lexeme [of ws 0 P v r]
  by (simp add: mode_classify_def)

lemma mode_other_lexeme:
  assumes "layout ws" "lower v \<notin> set mode_keywords"
  shows "mode_classify (length P) (P @ ws @ item v # r) = (length P, P @ ws @ item v # r)"
  using assms find_next_token_lexeme [of ws 0 P v r]
  by (simp add: mode_classify_def)

lemma scan_layout:
  "layout ws \<Longrightarrow>
   scan_until kind U d (ws @ r) =
     (case scan_until kind U d r of (n, l) \<Rightarrow> (length ws + n, ws @ l))"
  by (induction ws) (auto split: prod.splits)

lemma scan_stop: "lower v \<in> set U \<Longrightarrow> scan_until kind U 0 (item v # r) = (0, item v # r)"
  by simp

lemma scan_region:
  assumes "region_ok U d xs" "layout ws" "lower v \<in> set U"
  shows "scan_until kind U d (lexemes_tokens xs @ ws @ item v # r) =
           (length (lexemes_tokens xs) + length ws,
            lexemes_classified kind xs @ ws @ item v # r)"
  using assms
proof (induction xs arbitrary: d)
  case Nil
  then show ?case by (simp add: scan_layout)
next
  case (Cons x xs)
  obtain w s where x: "x = (w, s)" by (cases x)
  let ?d = "if s = ''('' then Suc d else if s = '')'' then d - 1 else d"
  have ih: "scan_until kind U ?d (lexemes_tokens xs @ ws @ item v # r) =
           (length (lexemes_tokens xs) + length ws,
            lexemes_classified kind xs @ ws @ item v # r)"
    using Cons.IH [of ?d] Cons.prems x by simp
  have stop: "\<not> (d = 0 \<and> (lower s \<in> set U \<or> s = '')''))" and lw: "layout w"
    using Cons.prems x by auto
  have "scan_until kind U d (item s # lexemes_tokens xs @ ws @ item v # r) =
          (Suc (length (lexemes_tokens xs) + length ws),
           assign (kind (item s)) (item s) # lexemes_classified kind xs @ ws @ item v # r)"
    using stop ih by (auto split: prod.splits)
  then show ?case using x lw by (simp add: scan_layout)
qed

lemma length_lexemes_classified [simp]:
  "length (lexemes_classified kind xs) = length (lexemes_tokens xs)"
  by (induction xs) auto

lemma classify_until_frame:
  "classify_until kind U (length P) (P @ s) =
     (case scan_until kind U 0 s of (n, l) \<Rightarrow> (length P + n, P @ l))"
  by (simp add: classify_until_def)

lemma classify_until_region:
  assumes "region_ok U 0 xs" "layout ws" "lower v \<in> set U"
  shows "classify_until kind U (length P) (P @ lexemes_tokens xs @ ws @ item v # r) =
           (length P + length (lexemes_tokens xs) + length ws,
            P @ lexemes_classified kind xs @ ws @ item v # r)"
  using scan_region [OF assms, of kind r] by (simp add: classify_until_frame)

lemma lower_symbols [simp]:
  "lower '':'' = '':''" "lower '';'' = '';''" "lower '':='' = '':=''"
  by (simp_all add: lower_def lower_char_def)

text \<open>The last step of \<^verbatim>\<open>classify\<close>: the optional default value.\<close>

lemma default_step:
  assumes "layout ew"
    and "case v of None \<Rightarrow> k \<le> length ew | Some (dw, e) \<Rightarrow> layout dw \<and> region_ok ['';''] 0 e \<and> k \<le> length dw"
  shows "(if is_next_token '':='' (length P + k) (P @ default_tokens v @ ew @ item '';'' # rest)
          then (case assign_next_token_required '':='' ''interface_unknown_declaration.assignment''
                       (length P + k) (P @ default_tokens v @ ew @ item '';'' # rest) of
                  Inl e \<Rightarrow> Inl e
                | Inr (iCurrent, lObjects) \<Rightarrow> Inr (expression_classify_until '';'' iCurrent lObjects))
          else Inr (length P + k, P @ default_tokens v @ ew @ item '';'' # rest)) =
         Inr (case v of None \<Rightarrow> length P + k
              | Some (dw, e) \<Rightarrow> length P + length (default_tokens v) + length ew,
              P @ default_classified v @ ew @ item '';'' # rest)"
proof (cases v)
  case None
  then show ?thesis
    using assms is_next_lexeme [of ew k "'':=''" P "'';''" rest]
    by (simp add: default_tokens_def default_classified_def)
next
  case (Some a)
  obtain dw e where a: "a = (dw, e)" by (cases a)
  have l: "layout dw" "region_ok ['';''] 0 e" "k \<le> length dw"
    using assms Some a by auto
  let ?R = "lexemes_tokens e @ ew @ item '';'' # rest"
  have n: "is_next_token '':='' (length P + k) (P @ dw @ item '':='' # ?R)"
    using l by (simp add: is_next_lexeme)
  have r: "assign_next_token_required '':='' ''interface_unknown_declaration.assignment''
             (length P + k) (P @ dw @ item '':='' # ?R) =
           Inr (length P + length dw + 1,
                P @ dw @ assign ''interface_unknown_declaration.assignment'' (item '':='') # ?R)"
    using l by (simp add: required_lexeme)
  let ?P = "P @ dw @ [assign ''interface_unknown_declaration.assignment'' (item '':='')]"
  have x: "expression_classify_until '';'' (length ?P) (?P @ ?R) =
             (length ?P + length (lexemes_tokens e) + length ew,
              ?P @ lexemes_classified (\<lambda>oToken. ''expression.todo'') e @ ew @ item '';'' # rest)"
    unfolding expression_classify_until_def
    using l assms(1) by (intro classify_until_region) simp_all
  show ?thesis
    using n r x by (simp add: Some a default_tokens_def default_classified_def)
qed


lemma length_mode_classified [simp]: "length (mode_classified m) = length (mode_tokens m)"
  by (simp add: mode_classified_def mode_tokens_def split: option.splits)

lemma length_bus_classified [simp]: "length (bus_classified b) = length (mode_tokens b)"
  by (simp add: bus_classified_def mode_tokens_def split: option.splits)

lemma lower_bus_not_symbol: "lower s = ''bus'' \<Longrightarrow> lower s \<noteq> '':=''"
  by simp

lemma classify_declaration:
  assumes wf: "well_formed d"
  shows "classify (length pre) (pre @ declaration_body d @ decl_end d @ item '';'' # rest) =
           Inr (length pre + length (declaration_body d) +
                  (if decl_bus d \<noteq> None \<and> decl_default d = None then 0 else length (decl_end d)),
                pre @ declaration_body_classified d @ decl_end d @ item '';'' # rest)"
proof -
  define I where "I = decl_identifiers d"
  define cw where "cw = decl_colon d"
  define m where "m = decl_mode d"
  define S where "S = decl_subtype d"
  define b where "b = decl_bus d"
  define v where "v = decl_default d"
  define ew where "ew = decl_end d"
  define Rd where "Rd = default_tokens v @ ew @ item '';'' # rest"
  define Rb where "Rb = mode_tokens b @ Rd"
  define Rs where "Rs = lexemes_tokens S @ Rb"
  define Rm where "Rm = mode_tokens m @ Rs"
  note parts = I_def cw_def m_def S_def b_def v_def ew_def
  have wI: "region_ok ['':''] 0 I" and wc: "layout cw" and we: "layout ew"
    and wS: "region_ok ['';'', ''bus'', '':=''] 0 S"
    and wm: "case m of None \<Rightarrow> (case S of [] \<Rightarrow> True | (ws, s) # xs \<Rightarrow> lower s \<notin> set mode_keywords)
             | Some (ws, s) \<Rightarrow> layout ws \<and> lower s \<in> set mode_keywords"
    and wb: "case b of None \<Rightarrow> True | Some (ws, s) \<Rightarrow> layout ws \<and> lower s = ''bus''"
    and wv: "case v of None \<Rightarrow> True | Some (ws, xs) \<Rightarrow> layout ws \<and> region_ok ['';''] 0 xs"
    using wf unfolding well_formed_def parts by simp_all
  \<comment> \<open>the head of what follows the default value, the bus keyword and the subtype\<close>
  define hv where "hv = (case v of None \<Rightarrow> length ew | Some (dw, e) \<Rightarrow> length dw)"
  define hb where "hb = (case b of None \<Rightarrow> hv | Some (bw, bs) \<Rightarrow> length bw)"
  have Rd_head: "\<exists>ws x r. Rd = ws @ item x # r \<and> layout ws \<and> length ws = hv \<and>
                   (x = '';'' \<or> x = '':='')"
  proof (cases v)
    case None
    then show ?thesis using we by (auto simp: Rd_def hv_def default_tokens_def)
  next
    case (Some a)
    obtain dw e where "a = (dw, e)" by (cases a)
    with Some wv show ?thesis
      by (auto simp: Rd_def hv_def default_tokens_def intro!: exI [of _ dw])
  qed
  have Rb_head: "\<exists>ws x r. Rb = ws @ item x # r \<and> layout ws \<and> length ws = hb \<and>
                   lower x \<in> set ['';'', ''bus'', '':='']"
  proof (cases b)
    case None
    from Rd_head obtain ws x r where
      h: "Rd = ws @ item x # r" "layout ws" "length ws = hv" "x = '';'' \<or> x = '':=''" by blast
    have "Rb = ws @ item x # r \<and> layout ws \<and> length ws = hb \<and>
          lower x \<in> set ['';'', ''bus'', '':='']"
      using h None by (auto simp: Rb_def hb_def mode_tokens_def)
    then show ?thesis by blast
  next
    case (Some a)
    obtain bw bs where "a = (bw, bs)" by (cases a)
    with Some wb show ?thesis
      by (auto simp: Rb_def hb_def mode_tokens_def intro!: exI [of _ bw])
  qed
  have Rs_head: "m = None \<Longrightarrow> \<exists>ws x r. Rs = ws @ item x # r \<and> layout ws \<and>
                   lower x \<notin> set mode_keywords"
  proof (cases S)
    case Nil
    from Rb_head obtain ws x r where
      h: "Rb = ws @ item x # r" "layout ws" "lower x \<in> set ['';'', ''bus'', '':='']" by blast
    have "Rs = ws @ item x # r \<and> layout ws \<and> lower x \<notin> set mode_keywords"
      using h Nil by (auto simp: Rs_def mode_keywords_def)
    then show ?thesis by blast
  next
    case (Cons a xs)
    assume "m = None"
    obtain w s where a: "a = (w, s)" by (cases a)
    with Cons wS wm \<open>m = None\<close> have "layout w" "lower s \<notin> set mode_keywords" by auto
    then show ?thesis
      using Cons a by (auto simp: Rs_def intro!: exI [of _ w])
  qed
  \<comment> \<open>the steps of \<open>classify\<close>\<close>
  let ?CI = "lexemes_classified (identifier_kind ''interface_unknown_declaration.identifier'') I"
  let ?colon = "assign ''interface_unknown_declaration.colon'' (item '':'')"
  let ?CS = "lexemes_classified (\<lambda>oToken. ''subtype_indication.todo'') S"
  let ?P1 = "pre @ ?CI"
  let ?P2 = "?P1 @ cw @ [?colon]"
  let ?P3 = "?P2 @ mode_classified m"
  let ?P4 = "?P3 @ ?CS"
  let ?P5 = "?P4 @ bus_classified b"
  have s1: "identifier_list_classify_until ['':''] (length pre)
              (pre @ lexemes_tokens I @ cw @ item '':'' # Rm)
              ''interface_unknown_declaration.identifier'' =
            (length ?P1 + length cw, ?P1 @ cw @ item '':'' # Rm)"
    unfolding identifier_list_classify_until_def
    using classify_until_region [OF wI wc, of "'':''"
            "identifier_kind ''interface_unknown_declaration.identifier''" pre Rm]
    by simp
  have s2: "assign_next_token_required '':'' ''interface_unknown_declaration.colon''
              (length ?P1 + length cw) (?P1 @ cw @ item '':'' # Rm) =
            Inr (length ?P2, ?P2 @ Rm)"
    using required_lexeme [OF wc, of "length cw" "'':''" "'':''"
            "''interface_unknown_declaration.colon''" ?P1 Rm]
    by simp
  have s3: "mode_classify (length ?P2) (?P2 @ Rm) = (length ?P3, ?P3 @ Rs)"
  proof (cases m)
    case None
    from Rs_head [OF None] obtain ws x r where
      "Rs = ws @ item x # r" "layout ws" "lower x \<notin> set mode_keywords" by blast
    then show ?thesis
      using mode_other_lexeme [of ws x ?P2 r] None
      by (simp add: Rm_def mode_tokens_def mode_classified_def)
  next
    case (Some a)
    obtain mw ms where a: "a = (mw, ms)" by (cases a)
    with Some wm have "layout mw" "lower ms \<in> set mode_keywords" by auto
    then show ?thesis
      using mode_lexeme [of mw ms ?P2 Rs] Some a
      by (simp add: Rm_def mode_tokens_def mode_classified_def)
  qed
  have s4: "subtype_indication_classify_until ['';'', ''bus'', '':=''] (length ?P3) (?P3 @ Rs) =
            (length ?P4 + hb, ?P4 @ Rb)"
  proof -
    from Rb_head obtain ws x r where
      h: "Rb = ws @ item x # r" "layout ws" "length ws = hb"
         "lower x \<in> set ['';'', ''bus'', '':='']" by blast
    show ?thesis
      unfolding subtype_indication_classify_until_def Rs_def h(1)
      using classify_until_region [OF wS h(2) h(4), of "\<lambda>oToken. ''subtype_indication.todo''" ?P3 r]
            h(3)
      by simp
  qed
  have s5: "assign_next_token_if ''bus'' ''interface_unknown_declaration.bus_keyword''
              (length ?P4 + hb) (?P4 @ Rb) =
            (length ?P5 + (if b = None then hv else 0), ?P5 @ Rd)"
  proof (cases b)
    case None
    from Rd_head obtain ws x r where
      h: "Rd = ws @ item x # r" "layout ws" "length ws = hv" "x = '';'' \<or> x = '':=''" by blast
    have "lower x \<noteq> ''bus''" using h(4) by auto
    then show ?thesis
      using if_other_lexeme [OF h(2), of hv x "''bus''"
              "''interface_unknown_declaration.bus_keyword''" ?P4 r] h None
      by (simp add: Rb_def hb_def mode_tokens_def bus_classified_def)
  next
    case (Some a)
    obtain bw bs where a: "a = (bw, bs)" by (cases a)
    with Some wb have l: "layout bw" "lower bs = ''bus''" by auto
    show ?thesis
      using if_lexeme [OF l(1) _ l(2), of "length bw"
              "''interface_unknown_declaration.bus_keyword''" ?P4 Rd] Some a
      by (simp add: Rb_def hb_def mode_tokens_def bus_classified_def)
  qed
  define k where "k = (if b = None then hv else 0)"
  have kv: "case v of None \<Rightarrow> k \<le> length ew
            | Some (dw, e) \<Rightarrow> layout dw \<and> region_ok ['';''] 0 e \<and> k \<le> length dw"
    using wv by (auto simp: k_def hv_def split: option.splits)
  note s6 = default_step [OF we kv, of ?P5 rest]
  have input: "pre @ declaration_body d @ decl_end d @ item '';'' # rest =
               pre @ lexemes_tokens I @ cw @ item '':'' # Rm"
    by (simp add: declaration_body_def parts Rm_def Rs_def Rb_def Rd_def)
  have "classify (length pre) (pre @ lexemes_tokens I @ cw @ item '':'' # Rm) =
        Inr (case v of None \<Rightarrow> length ?P5 + k
             | Some (dw, e) \<Rightarrow> length ?P5 + length (default_tokens v) + length ew,
             ?P5 @ default_classified v @ ew @ item '';'' # rest)"
    unfolding classify_def s1 prod.case s2 sum.case s3 s4 s5
    using s6 by (simp only: k_def Rd_def)
  moreover have "length ?P5 + length (default_tokens v) = length pre + length (declaration_body d)"
    by (simp add: declaration_body_def parts)
  then have "(case v of None \<Rightarrow> length ?P5 + k
              | Some (dw, e) \<Rightarrow> length ?P5 + length (default_tokens v) + length ew) =
             length pre + length (declaration_body d) +
               (if decl_bus d \<noteq> None \<and> decl_default d = None then 0 else length (decl_end d))"
    by (cases v; cases b) (auto simp: k_def hv_def default_tokens_def parts)
  moreover have "?P5 @ default_classified v @ ew @ item '';'' # rest =
      pre @ declaration_body_classified d @ decl_end d @ item '';'' # rest"
    by (simp add: declaration_body_classified_def parts)
  ultimately show ?thesis
    unfolding input by (simp only:)
qed

lemma length_declaration_body_classified:
  "length (declaration_body_classified d) = length (declaration_body d)"
  by (simp add: declaration_body_classified_def declaration_body_def default_classified_def
        default_tokens_def split: option.splits)

text \<open>
  C2, as stated, fails: on \<^verbatim>\<open>x : std_logic bus ;\<close> the classifier assigns the kinds and
  returns cursor 7, the index one past \<^verbatim>\<open>bus\<close>, where a whitespace token stands; the
  terminating semicolon is at index 8.
\<close>

theorem classify_bus_cursor:
  "classify 0 bus_tokens = Inr (7, bus_tokens_classified) \<and>
   bus_tokens_classified ! 7 = whitespace '' '' \<and>
   bus_tokens_classified ! 8 = item '';''"
  by (simp add: classifier_defs bus_tokens_def bus_tokens_classified_def)

text \<open>
  C2, amended. For a well-formed object declaration without \<^verbatim>\<open>signal\<close>, \<^verbatim>\<open>constant\<close> or
  \<^verbatim>\<open>variable\<close> (identifier list, colon, optional mode, subtype indication, optional
  \<^verbatim>\<open>bus\<close>, optional default expression) that stands at the cursor and is followed by a
  semicolon, \<^verbatim>\<open>classify\<close> succeeds; it assigns the identifier, comma, colon, mode,
  subtype-indication, bus, assignment and expression kinds, changes no other token and
  leaves the semicolon untyped. The cursor returned is the index of the semicolon,
  except for a declaration that ends with \<^verbatim>\<open>bus\<close>, where it is the index one past
  \<^verbatim>\<open>bus\<close>; in both cases the next token of the cursor is the semicolon.
\<close>

theorem classify_well_formed_declaration:
  assumes "well_formed d"
  shows "classify (length pre) (pre @ declaration_body d @ decl_end d @ item '';'' # rest) =
           Inr (length pre + length (declaration_body d) +
                  (if decl_bus d \<noteq> None \<and> decl_default d = None then 0
                   else length (decl_end d)),
                pre @ declaration_body_classified d @ decl_end d @ item '';'' # rest)
         \<and> find_next_token
             (length pre + length (declaration_body d) +
                (if decl_bus d \<noteq> None \<and> decl_default d = None then 0 else length (decl_end d)))
             (pre @ declaration_body_classified d @ decl_end d @ item '';'' # rest) =
           Some (length pre + length (declaration_body d) + length (decl_end d))
         \<and> (pre @ declaration_body_classified d @ decl_end d @ item '';'' # rest) !
             (length pre + length (declaration_body d) + length (decl_end d)) = item '';''"
proof -
  have l: "layout (decl_end d)"
    using assms by (simp add: well_formed_def)
  let ?P = "pre @ declaration_body_classified d"
  have n: "length ?P = length pre + length (declaration_body d)"
    by (simp add: length_declaration_body_classified)
  have "find_next_token (length ?P + k) (?P @ decl_end d @ item '';'' # rest) =
          Some (length ?P + length (decl_end d))" if "k \<le> length (decl_end d)" for k
    using l that by (rule find_next_token_lexeme)
  from this [of 0] this [of "length (decl_end d)"]
       nth_lexeme [of ?P "decl_end d" "item '';''" rest]
  show ?thesis
    using classify_declaration [OF assms, of pre rest] n by simp
qed

theorem classify_well_formed_declaration_witness:
  "well_formed example_declaration \<and>
   classify 0 declaration_tokens = Inr (7, declaration_classified) \<and>
   find_next_token 7 declaration_classified = Some 7 \<and>
   declaration_classified ! 7 = item '';''"
proof -
  have w: "well_formed example_declaration"
    by (simp add: well_formed_def example_declaration_def whitespace_def is_item_def
          mode_keywords_def lower_def lower_char_def)
  have b: "declaration_body example_declaration @ decl_end example_declaration @ [item '';''] =
           declaration_tokens"
    by (simp add: declaration_body_def example_declaration_def declaration_tokens_def
          mode_tokens_def default_tokens_def)
  have c: "declaration_body_classified example_declaration @ decl_end example_declaration @
             [item '';''] = declaration_classified"
    by (simp add: declaration_body_classified_def example_declaration_def
          declaration_classified_def mode_classified_def bus_classified_def
          default_classified_def identifier_kind_def lower_def lower_char_def)
  have n: "length (declaration_body example_declaration) = 7"
    by (simp add: declaration_body_def example_declaration_def mode_tokens_def
          default_tokens_def)
  have e: "decl_end example_declaration = []" "decl_bus example_declaration = None"
    by (simp_all add: example_declaration_def)
  show ?thesis
    using classify_well_formed_declaration [OF w, of "[]" "[]"] w b c n e by simp
qed



section \<open>Properties of the configuration\<close>

lemma hasattr_setattr [simp]: "hasattr (setattr self k v) k' \<longleftrightarrow> k' = k \<or> hasattr self k'"
  by (induction self k v rule: setattr.induct) (auto simp: hasattr_def)

lemma hasattr_configure_attributes [simp]:
  "hasattr (configure_attributes self dBlock) k \<longleftrightarrow> hasattr self k"
  by (induction self dBlock rule: configure_attributes.induct) auto

lemma configure_attributes_filter:
  "\<not> hasattr self sKey \<Longrightarrow>
   configure_attributes self (filter (\<lambda>(k, v). k \<noteq> sKey) dBlock) = configure_attributes self dBlock"
  by (induction self dBlock rule: configure_attributes.induct) auto

lemma map_of_map_snd:
  "map_of (map (\<lambda>(k, v). (k, f v)) xs) k = map_option f (map_of xs k)"
  by (induction xs) auto

lemma configure_block_without:
  "\<not> hasattr self sKey \<Longrightarrow>
   configure_block self (map (\<lambda>(sRule, dBlock). (sRule, filter (\<lambda>(k, v). k \<noteq> sKey) dBlock)) dRules) b =
   configure_block self dRules b"
  by (simp add: configure_block_def map_of_map_snd configure_attributes_filter split: option.splits)

lemma hasattr_configure_block [simp]:
  "hasattr (configure_block self dRules b) k \<longleftrightarrow> hasattr self k"
  by (simp add: configure_block_def split: option.splits)

text \<open>
  C8, amended. A key of the configuration that names no attribute of the rule is
  ignored: \<^verbatim>\<open>configure\<close> returns what it returns for the configuration without that key,
  the same attributes with the same values or the same error.
\<close>

theorem configure_ignores_unknown:
  assumes "\<not> hasattr self sKey"
  shows "configure self dConfiguration = configure self (without_key sKey dConfiguration)"
proof (cases "map_of dConfiguration ''rule''")
  case None
  then show ?thesis
    by (simp add: configure_def without_key_def map_of_map_snd)
next
  case (Some dRules)
  let ?dRules = "map (\<lambda>(sRule, dBlock). (sRule, filter (\<lambda>(k, v). k \<noteq> sKey) dBlock)) dRules"
  have r: "map_of (without_key sKey dConfiguration) ''rule'' = Some ?dRules"
    using Some by (simp add: without_key_def map_of_map_snd)
  have g: "configure_block self ?dRules ''global'' = configure_block self dRules ''global''"
    using assms by (rule configure_block_without)
  have "\<not> hasattr (configure_block self dRules ''global'') sKey"
    using assms by simp
  then have b: "configure_block (configure_block self dRules ''global'') ?dRules k =
                configure_block (configure_block self dRules ''global'') dRules k" for k
    by (rule configure_block_without)
  show ?thesis
    unfolding configure_def Some r option.case Let_def g b ..
qed

lemmas configure_defs =
  configure_def configure_block_def hasattr_def without_key_def rule_def test_rule_def
  solution_configuration_def invalid_configuration_def test_rule_configured_def

theorem configure_ignores_unknown_witness:
  "\<not> hasattr test_rule ''invalidAttribute'' \<and>
   configure test_rule invalid_configuration = Inr test_rule_configured \<and>
   configure test_rule (without_key ''invalidAttribute'' invalid_configuration) =
     Inr test_rule_configured"
proof -
  have a: "\<not> hasattr test_rule ''invalidAttribute''"
    by (simp add: configure_defs)
  have b: "configure test_rule invalid_configuration = Inr test_rule_configured"
    by (simp add: configure_defs)
  show ?thesis
    using configure_ignores_unknown [OF a, of invalid_configuration] a b by simp
qed

text \<open>
  C8, as stated, fails: \<^verbatim>\<open>solution\<close> is not in the list \<^verbatim>\<open>configuration\<close> of the rule of
  \<^verbatim>\<open>test_rule_configure\<close>, and yet \<^verbatim>\<open>configure\<close> stores the value that the configuration
  gives for it, where the configuration without that key leaves the old one.
\<close>

theorem configure_stores_solution:
  "map_of test_rule ''configuration'' =
     Some (PList [PStr ''indentSize'', PStr ''phase'', PStr ''disable'', PStr ''fixable'',
                  PStr ''severity'']) \<and>
   map_option (\<lambda>self. map_of self ''solution'') (projr_option (configure test_rule solution_configuration)) =
     Some (Some (PStr ''This is the new solution'')) \<and>
   map_option (\<lambda>self. map_of self ''solution'')
     (projr_option (configure test_rule (without_key ''solution'' solution_configuration))) =
     Some (Some (PStr ''This is my solution''))"
  by (simp add: configure_defs projr_option_def)

text \<open>The assertions of \<^verbatim>\<open>test_configure_rule_attributes_method\<close> hold in the model.\<close>

lemma test_configure_rule_attributes_method:
  "configure xyz_rule [] = Inr xyz_rule"
  "map_of xyz_rule ''indentSize'' = Some (PInt 2) \<and> map_of xyz_rule ''phase'' = Some PNone \<and>
   map_of xyz_rule ''disable'' = Some (PBool False) \<and> map_of xyz_rule ''fixable'' = Some (PBool True)"
  "configure xyz_rule attributes_configuration =
     Inr (setattr (setattr (setattr (setattr xyz_rule ''indentSize'' (PInt 4))
            ''phase'' (PInt 10)) ''disable'' (PBool True)) ''fixable'' (PBool False))"
  "map_option (\<lambda>self. map_of self ''unknown'')
     (projr_option (configure (setattr xyz_rule ''unknown'' PNone) attributes_configuration)) =
     Some (Some (PStr ''New''))"
  by (simp_all add: configure_defs xyz_rule_def attributes_configuration_def projr_option_def)

section \<open>Properties of the alignment\<close>

lemma width_append [simp]: "width (a @ b) = width a + width b"
  by (simp add: width_def)

lemma width_pad: "width (pad n l) = width l + n"
proof (cases "n = 0 \<or> l = []")
  case True
  then show ?thesis by (auto simp: pad_def width_def whitespace_def)
next
  case False
  then have "l = butlast l @ [last l]" by simp
  then have "width l = width (butlast l) + length (token_value (last l))"
    by (metis width_append width_def list.simps(8,9) sum_list.Cons sum_list.Nil add_0_right)
  then show ?thesis using False by (auto simp: pad_def width_def whitespace_def)
qed

lemma foldr_max_ge: "c \<in> set cs \<Longrightarrow> c \<le> foldr max cs (0::nat)"
  by (induction cs) (auto simp: max_def)

lemma foldr_max_in: "cs \<noteq> [] \<Longrightarrow> foldr max cs (0::nat) \<in> set cs"
proof (induction cs)
  case Nil
  then show ?case by simp
next
  case (Cons a cs)
  then show ?case by (cases cs) (auto simp: max_def)
qed


lemma rule_029_kinds [simp]:
  "is_aligned_kind rule_029 oToken \<longleftrightarrow> isinstance oToken ''parser.comment''"
  by (simp add: is_aligned_kind_def rule_029_def)

lemma pad_not_aligned:
  assumes "\<forall>t \<in> set l. \<not> isinstance t ''parser.comment''"
  shows "\<forall>t \<in> set (pad n l). \<not> isinstance t ''parser.comment''"
proof -
  have w: "\<not> isinstance (whitespace s) ''parser.comment''" for s
    by (simp add: isinstance_def whitespace_def)
  have u: "\<not> isinstance (t\<lparr>token_value := s\<rparr>) ''parser.comment''"
    if "\<not> isinstance t ''parser.comment''" for t s
    using that by (simp add: isinstance_def)
  show ?thesis
  proof (cases "n \<noteq> 0 \<and> l \<noteq> [] \<and> is_whitespace (last l)")
    case True
    then have "set (butlast l) \<subseteq> set l" "last l \<in> set l"
      by (auto dest: in_set_butlastD)
    with True assms u show ?thesis by (auto simp: pad_def)
  next
    case False
    with assms w show ?thesis by (auto simp: pad_def)
  qed
qed

lemma column_align_line:
  assumes "column rule_029 lLine = Some c" "c \<le> iColumn"
  shows "column rule_029 (align_line rule_029 iColumn lLine) = Some iColumn"
proof -
  let ?b = "before_aligned rule_029 lLine" and ?f = "from_aligned rule_029 lLine"
  have f: "?f \<noteq> []" and c: "c = width ?b"
    using assms(1) by (auto simp: column_def split: if_splits)
  then obtain x r where x: "?f = x # r" by (cases ?f) auto
  have ax: "isinstance x ''parser.comment''"
    using x hd_dropWhile [of "\<lambda>oToken. \<not> is_aligned_kind rule_029 oToken" lLine]
    by (simp add: from_aligned_def)
  have nb: "\<forall>t \<in> set ?b. \<not> isinstance t ''parser.comment''"
    by (auto simp: before_aligned_def dest: set_takeWhileD)
  let ?p = "pad (iColumn - width ?b) ?b"
  have np: "\<forall>t \<in> set ?p. \<not> isinstance t ''parser.comment''"
    using nb by (rule pad_not_aligned)
  have t: "takeWhile (\<lambda>oToken. \<not> is_aligned_kind rule_029 oToken) (?p @ x # r) = ?p"
    using np ax by (simp add: takeWhile_append)
  have d: "dropWhile (\<lambda>oToken. \<not> is_aligned_kind rule_029 oToken) (?p @ x # r) = x # r"
    using np ax by (simp add: dropWhile_append)
  have "column rule_029 (?p @ x # r) = Some (width ?p)"
    using t d by (simp add: column_def before_aligned_def from_aligned_def)
  then show ?thesis
    using f x c assms(2) by (simp add: align_line_def width_pad)
qed

text \<open>
  C7. In a region of \<^verbatim>\<open>rule_029\<close> the fix leaves every line that begins with a comment
  as it is and moves the inline comment of every other line to the target column, which
  is the largest column of an inline comment in the region: with comments at columns
  10, 15 and 12 they all stand at column 15 afterwards.
\<close>

theorem align_fix_columns:
  assumes "i < length lLines"
  shows "length (align_fix rule_029 lLines) = length lLines \<and>
         (begins_with_skipped rule_029 (lLines ! i) \<longrightarrow>
            align_fix rule_029 lLines ! i = lLines ! i) \<and>
         (\<not> begins_with_skipped rule_029 (lLines ! i) \<longrightarrow>
            column rule_029 (lLines ! i) \<noteq> None \<longrightarrow>
            column rule_029 (align_fix rule_029 lLines ! i) =
              Some (target_column rule_029 lLines)) \<and>
         (\<forall>c \<in> set (columns rule_029 lLines). c \<le> target_column rule_029 lLines) \<and>
         (columns rule_029 lLines \<noteq> [] \<longrightarrow>
            target_column rule_029 lLines \<in> set (columns rule_029 lLines))"
proof -
  have m: "\<forall>c \<in> set (columns rule_029 lLines). c \<le> target_column rule_029 lLines"
    by (simp add: target_column_def foldr_max_ge)
  have "column rule_029 (align_fix rule_029 lLines ! i) = Some (target_column rule_029 lLines)"
    if s: "\<not> begins_with_skipped rule_029 (lLines ! i)"
      and c: "column rule_029 (lLines ! i) = Some c" for c
  proof -
    have "c \<in> set (columns rule_029 lLines)"
      using assms s c by (force simp: columns_def in_set_conv_nth)
    with m have "c \<le> target_column rule_029 lLines" by simp
    with c show ?thesis
      using assms s by (simp add: align_fix_def column_align_line)
  qed
  then show ?thesis
    using assms m by (auto simp: align_fix_def target_column_def foldr_max_in)
qed

lemmas align_defs =
  instantiation_region_def instantiation_region_aligned_def instantiation_line_def
  align_fix_def align_line_def pad_def column_def columns_def target_column_def
  before_aligned_def from_aligned_def begins_with_skipped_def is_aligned_kind_def
  is_whitespace_def isinstance_def width_def rule_029_def whitespace_def comment_def item_def

lemma instantiation_region_columns:
  "columns rule_029 instantiation_region = [10, 15, 12]"
  by (simp add: align_defs)

lemma instantiation_region_fixed:
  "align_fix rule_029 instantiation_region = instantiation_region_aligned"
  by (simp add: align_defs)

theorem align_fix_columns_witness:
  "(3 :: nat) < length instantiation_region \<and>
   columns rule_029 instantiation_region = [10, 15, 12] \<and>
   target_column rule_029 instantiation_region = 15 \<and>
   map (column rule_029) (align_fix rule_029 instantiation_region) =
     [Some 15, Some 15, Some 15, Some 2] \<and>
   begins_with_skipped rule_029 (instantiation_region ! 3) \<and>
   align_fix rule_029 instantiation_region ! 3 = instantiation_region ! 3"
proof -
  have l: "(3 :: nat) < length instantiation_region"
    by (simp add: instantiation_region_def)
  have t: "target_column rule_029 instantiation_region = 15"
    by (simp add: target_column_def instantiation_region_columns)
  have c: "map (column rule_029) instantiation_region_aligned =
             [Some 15, Some 15, Some 15, Some 2]"
    by (simp add: align_defs)
  have b: "begins_with_skipped rule_029 (instantiation_region ! 3)"
    by (simp add: align_defs)
  show ?thesis
    using align_fix_columns [OF l] l t c b instantiation_region_columns
    by (simp add: instantiation_region_fixed)
qed

end
